theory Spec2Isabelle
  imports Main "HOL-Library.AList" "HOL-Library.Multiset" "HOL-Library.Sublist"
begin

section \<open>JavaScript values handled by AbstractManager.js\<close>

text \<open>
  Strings. A \<open>string\<close> is a list of code units below 256: \<open>of_char c\<close> is the code
  unit of \<open>c\<close>. Strings with other code units are outside the model.

  Numbers. The manager stores numbers in \<open>start\<close> and \<open>rows\<close>. The only numbers the
  file produces are the literal \<open>0\<close>, the argument of \<open>buildQuery\<close> and the result of
  \<open>parseInt\<close>. A Number holds every integer up to \<open>2^53\<close> in magnitude exactly: that
  is \<open>Num i\<close>. \<open>Rounded i\<close> is the Number that the engine takes for an integer \<open>i\<close>
  beyond that range (a rounded value or an infinity); the model knows of it only the
  integer it came from.
\<close>

datatype jsnum = Num int | NaN | Rounded int

definition maxExact :: int where
  "maxExact = 9007199254740992"

datatype error = TypeError | Thrown string

record QueryItem =
  q_value :: string

record FilterQueryItem =
  widgetId :: string
  fq_field :: string
  fq_value :: string

record DateFacet =
  d_field :: string
  d_start :: string
  d_end :: string
  d_gap :: string

subsection \<open>Number to string, as string concatenation does it\<close>

definition digitChar :: "nat \<Rightarrow> char" where
  "digitChar d = char_of (48 + d)"

fun natToString :: "nat \<Rightarrow> string" where
  "natToString n =
     (if n < 10 then [digitChar n] else natToString (n div 10) @ [digitChar (n mod 10)])"

declare natToString.simps [simp del]

definition intToString :: "int \<Rightarrow> string" where
  "intToString i = (if i < 0 then ''-'' @ natToString (nat (- i)) else natToString (nat i))"

subsection \<open>\<open>parseInt\<close> with one argument\<close>

text \<open>
  \<open>parseInt(s)\<close> skips leading white space, reads an optional sign, takes radix 16
  after a \<open>0x\<close> or \<open>0X\<close> prefix and radix 10 otherwise, and reads the longest prefix
  of digits of that radix; with no digit the result is \<open>NaN\<close>. The white space
  and line terminators below 256 are tab, line feed, vertical tab, form feed, carriage
  return, space and the no-break space.
\<close>

definition isWhiteSpace :: "char \<Rightarrow> bool" where
  "isWhiteSpace c = ((of_char c :: nat) \<in> {9, 10, 11, 12, 13, 32, 160})"

definition digitVal :: "nat \<Rightarrow> char \<Rightarrow> nat option" where
  "digitVal radix c =
     (let n = (of_char c :: nat);
          v = (if 48 \<le> n \<and> n \<le> 57 then Some (n - 48)
               else if 97 \<le> n \<and> n \<le> 122 then Some (n - 87)
               else if 65 \<le> n \<and> n \<le> 90 then Some (n - 55)
               else None)
      in case v of None \<Rightarrow> None | Some d \<Rightarrow> if d < radix then Some d else None)"

definition digitsValue :: "nat \<Rightarrow> string \<Rightarrow> nat" where
  "digitsValue radix ds = foldl (\<lambda>acc c. acc * radix + (case digitVal radix c of None \<Rightarrow> 0 | Some d \<Rightarrow> d)) 0 ds"

definition parseDigits :: "nat \<Rightarrow> string \<Rightarrow> nat option" where
  "parseDigits radix s =
     (let ds = takeWhile (\<lambda>c. digitVal radix c \<noteq> None) s
      in if ds = [] then None else Some (digitsValue radix ds))"

definition parseInt :: "string \<Rightarrow> jsnum" where
  "parseInt s =
     (let s1 = dropWhile isWhiteSpace s;
          neg = (take 1 s1 = ''-'');
          s2 = (if take 1 s1 = ''-'' \<or> take 1 s1 = ''+'' then drop 1 s1 else s1);
          hex = (take 2 s2 = ''0x'' \<or> take 2 s2 = ''0X'');
          r = (if hex then parseDigits 16 (drop 2 s2) else parseDigits 10 s2)
      in case r of None \<Rightarrow> NaN
         | Some v \<Rightarrow>
             if int v \<le> maxExact then Num (if neg then - int v else int v)
             else Rounded (if neg then - int v else int v))"



subsection \<open>Strings and arrays\<close>

text \<open>\<open>Array.prototype.join\<close> on an array of strings.\<close>

fun join :: "string \<Rightarrow> string list \<Rightarrow> string" where
  "join sep [] = []"
| "join sep [x] = x"
| "join sep (x # y # ys) = x @ sep @ join sep (y # ys)"

text \<open>\<open>String.prototype.split\<close> with a one-character separator.\<close>

fun split :: "char \<Rightarrow> string \<Rightarrow> string list" where
  "split c [] = [[]]"
| "split c (x # xs) =
     (if x = c then [] # split c xs
      else (case split c xs of [] \<Rightarrow> [[x]] | y # ys \<Rightarrow> (x # y) # ys))"

section \<open>The store: arrays are shared by reference\<close>

text \<open>
  \<open>filters.q\<close>, \<open>filters.fq\<close>, \<open>filters.fl\<close> and the five arrays of a query object
  are JavaScript arrays: they are mutated in place (\<open>push\<close>) and copied by \<open>slice\<close>.
  An array is an address into the store; the store keeps one heap per element type and
  a counter of the addresses given out. Items are held by value: no function of the
  file mutates an item that is already in an array.
\<close>

type_synonym ref = nat

record store =
  next_ref :: ref
  strArrays :: "ref \<Rightarrow> string list"
  qArrays :: "ref \<Rightarrow> QueryItem list"
  fqArrays :: "ref \<Rightarrow> FilterQueryItem list"
  dateArrays :: "ref \<Rightarrow> DateFacet list"

definition new_strArray :: "string list \<Rightarrow> store \<Rightarrow> ref \<times> store" where
  "new_strArray xs h =
     (next_ref h, h\<lparr>next_ref := Suc (next_ref h), strArrays := (strArrays h)(next_ref h := xs)\<rparr>)"

definition new_qArray :: "QueryItem list \<Rightarrow> store \<Rightarrow> ref \<times> store" where
  "new_qArray xs h =
     (next_ref h, h\<lparr>next_ref := Suc (next_ref h), qArrays := (qArrays h)(next_ref h := xs)\<rparr>)"

definition new_fqArray :: "FilterQueryItem list \<Rightarrow> store \<Rightarrow> ref \<times> store" where
  "new_fqArray xs h =
     (next_ref h, h\<lparr>next_ref := Suc (next_ref h), fqArrays := (fqArrays h)(next_ref h := xs)\<rparr>)"

definition new_dateArray :: "DateFacet list \<Rightarrow> store \<Rightarrow> ref \<times> store" where
  "new_dateArray xs h =
     (next_ref h, h\<lparr>next_ref := Suc (next_ref h), dateArrays := (dateArrays h)(next_ref h := xs)\<rparr>)"

definition push_str :: "ref \<Rightarrow> string \<Rightarrow> store \<Rightarrow> store" where
  "push_str r x h = h\<lparr>strArrays := (strArrays h)(r := strArrays h r @ [x])\<rparr>"

definition push_q :: "ref \<Rightarrow> QueryItem \<Rightarrow> store \<Rightarrow> store" where
  "push_q r x h = h\<lparr>qArrays := (qArrays h)(r := qArrays h r @ [x])\<rparr>"

definition push_fq :: "ref \<Rightarrow> FilterQueryItem \<Rightarrow> store \<Rightarrow> store" where
  "push_fq r x h = h\<lparr>fqArrays := (fqArrays h)(r := fqArrays h r @ [x])\<rparr>"

definition push_date :: "ref \<Rightarrow> DateFacet \<Rightarrow> store \<Rightarrow> store" where
  "push_date r x h = h\<lparr>dateArrays := (dateArrays h)(r := dateArrays h r @ [x])\<rparr>"

section \<open>The query object and the manager\<close>

record queryObj =
  qo_fields :: ref
  qo_dates :: ref
  qo_q :: ref
  qo_fl :: ref
  qo_fq :: ref
  qo_start :: jsnum
  qo_rows :: jsnum
  qo_sort :: "string option"

text \<open>
  The fields of the manager that the functions below read or write. \<open>widgets\<close> is the
  plain object used as registry, given by its own properties in the order in which they
  were created (\<open>this.widgets[widget.id] = widget\<close> in \<open>addWidget\<close>); its prototype
  is \<open>Object.prototype\<close>.
\<close>

record 'w manager =
  filters_q :: ref
  filters_fq :: ref
  filters_fl :: ref
  hlFl :: string
  widgets :: "(string \<times> 'w) list"
  m_start :: jsnum
  m_hash :: string

subsection \<open>Collaborators that are not in AbstractManager.js\<close>

text \<open>
  The item codecs (\<open>toSolr\<close>, \<open>toHash\<close>, \<open>parseHash\<close>), \<open>String.prototype.urlencode\<close>,
  the processing the browser applies to a value assigned to \<open>window.location.hash\<close>,
  and the string that the engine prints for the Number it takes for an integer beyond
  \<open>2^53\<close> are parameters of the model. The codecs are taken to return normally.
\<close>

record codecs =
  urlencode :: "bool \<Rightarrow> string \<Rightarrow> string"
  toSolrQ :: "bool \<Rightarrow> QueryItem \<Rightarrow> string"
  toSolrFq :: "bool \<Rightarrow> FilterQueryItem \<Rightarrow> string"
  toHashQ :: "QueryItem \<Rightarrow> string"
  toHashFq :: "FilterQueryItem \<Rightarrow> string"
  parseHashQ :: "string \<Rightarrow> QueryItem"
  parseHashFq :: "string \<Rightarrow> FilterQueryItem"
  locationProcessing :: "string \<Rightarrow> string"
  roundedToString :: "int \<Rightarrow> string"

text \<open>
  A Number in a string concatenation: an exact integer is printed in decimal, the others
  as the engine prints them.
\<close>

fun numToString :: "codecs \<Rightarrow> jsnum \<Rightarrow> string" where
  "numToString cd (Num i) = (if \<bar>i\<bar> \<le> maxExact then intToString i else roundedToString cd i)"
| "numToString cd NaN = ''NaN''"
| "numToString cd (Rounded i) = roundedToString cd i"

section \<open>buildQueryString\<close>

definition facetPrefix :: string where
  "facetPrefix = ''facet=true&facet.limit=40&facet.sort=true&facet.mincount=1&hl=true''"

definition addDate :: "codecs \<Rightarrow> bool \<Rightarrow> string \<Rightarrow> DateFacet \<Rightarrow> string" where
  "addDate cd skip query d =
     (let field = d_field d;
          query = query @ ''&facet.date='' @ urlencode cd skip field;
          query = query @ ''&f.'' @ field @ ''.facet.date.start='' @ urlencode cd skip (d_start d);
          query = query @ ''&f.'' @ field @ ''.facet.date.end='' @ urlencode cd skip (d_end d);
          query = query @ ''&f.'' @ field @ ''.facet.date.gap='' @ urlencode cd skip (d_gap d)
      in query)"

text \<open>
  \<open>if (queryObj.sort)\<close>: an absent sort and the empty string are both falsy, so
  nothing is added for them.
\<close>

fun addSort :: "string \<Rightarrow> string option \<Rightarrow> string" where
  "addSort query None = query"
| "addSort query (Some s) = (if s \<noteq> [] then query @ ''&sort='' @ s else query)"

definition buildQueryString ::
  "codecs \<Rightarrow> queryObj \<Rightarrow> bool \<Rightarrow> 'w manager \<Rightarrow> store \<Rightarrow> string \<times> store" where
  "buildQueryString cd queryObj skip m h =
     (let query = facetPrefix;
          query = foldl (\<lambda>query f. query @ ''&facet.field='' @ urlencode cd skip f)
                    query (strArrays h (qo_fields queryObj));
          query = foldl (addDate cd skip) query (dateArrays h (qo_dates queryObj));
          query = foldl (\<lambda>query x. query @ ''&fq='' @ toSolrFq cd skip x)
                    query (fqArrays h (qo_fq queryObj));
          q = foldl (\<lambda>q x. q @ toSolrQ cd skip x @ '' '') [] (qArrays h (qo_q queryObj));
          query = query @ ''&q='' @ q;
          h' = push_str (qo_fl queryObj) ''id'' h;
          query = query @ ''&fl='' @ join '','' (strArrays h' (qo_fl queryObj));
          query = query @ ''&rows='' @ numToString cd (qo_rows queryObj);
          query = query @ ''&start='' @ numToString cd (qo_start queryObj);
          query = addSort query (qo_sort queryObj);
          query = query @ ''&hl.fl='' @ hlFl m
      in (query, h'))"

section \<open>Widgets\<close>

text \<open>
  Modelled from the spec: the widget capability set (AbstractWidget is not in
  AbstractManager.js). A widget holds its own selection; \<open>selectItems\<close> and
  \<open>deselectItems\<close> report whether the selection changed; \<open>alterQuery\<close> may only append
  entries to the arrays of the query object it is given. \<open>'w\<close> is the type of widget
  objects and the record gives their methods; a registry entry pairs the widget's id
  with the widget.
\<close>

datatype append =
    PushField string
  | PushDate DateFacet
  | PushQ QueryItem
  | PushFl string
  | PushFq FilterQueryItem

record 'w widgetOps =
  selectItemsW :: "string list \<Rightarrow> 'w \<Rightarrow> bool \<times> 'w"
  deselectItemsW :: "string list \<Rightarrow> 'w \<Rightarrow> bool \<times> 'w"
  deselectAllW :: "'w \<Rightarrow> 'w"
  alterQueryW :: "'w \<Rightarrow> append list"
  startAnimationW :: "'w \<Rightarrow> 'w"
  displayQueryW :: "queryObj \<Rightarrow> store \<Rightarrow> 'w \<Rightarrow> 'w"
  selectedItemsW :: "'w \<Rightarrow> string list"

fun applyAppend :: "queryObj \<Rightarrow> store \<Rightarrow> append \<Rightarrow> store" where
  "applyAppend queryObj h (PushField f) = push_str (qo_fields queryObj) f h"
| "applyAppend queryObj h (PushDate d) = push_date (qo_dates queryObj) d h"
| "applyAppend queryObj h (PushQ x) = push_q (qo_q queryObj) x h"
| "applyAppend queryObj h (PushFl f) = push_str (qo_fl queryObj) f h"
| "applyAppend queryObj h (PushFq x) = push_fq (qo_fq queryObj) x h"

definition alterQuery :: "'w widgetOps \<Rightarrow> queryObj \<Rightarrow> store \<Rightarrow> 'w \<Rightarrow> store" where
  "alterQuery ops queryObj h w = foldl (applyAppend queryObj) h (alterQueryW ops w)"

section \<open>The registry object\<close>

text \<open>
  \<open>this.widgets[id]\<close> reads an own property if there is one, and otherwise what
  \<open>Object.prototype\<close> has under that name: a function or object that is no widget,
  or nothing (\<open>undefined\<close>).
\<close>

definition objectPrototypeMember :: "string \<Rightarrow> bool" where
  "objectPrototypeMember k =
     (k \<in> set [''constructor'', ''hasOwnProperty'', ''isPrototypeOf'', ''propertyIsEnumerable'',
                ''toLocaleString'', ''toString'', ''valueOf'', ''__proto__'',
                ''__defineGetter__'', ''__defineSetter__'', ''__lookupGetter__'',
                ''__lookupSetter__''])"

datatype 'w lookup = Own 'w | Inherited | Missing

definition lookupWidget :: "(string \<times> 'w) list \<Rightarrow> string \<Rightarrow> 'w lookup" where
  "lookupWidget ws k =
     (case map_of ws k of
        Some w \<Rightarrow> Own w
      | None \<Rightarrow> if objectPrototypeMember k then Inherited else Missing)"

text \<open>
  \<open>for (var widgetId in this.widgets)\<close> visits the own properties: first the ids that
  are array indices (a decimal integer below \<open>2^32 - 1\<close> written without sign or
  leading zero) in ascending numeric order, then the other ids in the order in which
  they were created. \<open>Object.prototype\<close> has no enumerable property.
\<close>

definition arrayIndex :: "string \<Rightarrow> nat option" where
  "arrayIndex k =
     (if k \<noteq> [] \<and> (\<forall>c\<in>set k. 48 \<le> (of_char c :: nat) \<and> (of_char c :: nat) \<le> 57)
         \<and> (k = ''0'' \<or> hd k \<noteq> CHR ''0'') \<and> int (digitsValue 10 k) < 4294967295
      then Some (digitsValue 10 k) else None)"

definition indexKey :: "string \<times> 'w \<Rightarrow> nat" where
  "indexKey e = (case arrayIndex (fst e) of None \<Rightarrow> 0 | Some n \<Rightarrow> n)"

definition forIn :: "(string \<times> 'w) list \<Rightarrow> (string \<times> 'w) list" where
  "forIn ws =
     sort_key indexKey (filter (\<lambda>e. arrayIndex (fst e) \<noteq> None) ws)
     @ filter (\<lambda>e. arrayIndex (fst e) = None) ws"

section \<open>buildQuery\<close>

definition buildQuery :: "'w widgetOps \<Rightarrow> jsnum \<Rightarrow> 'w manager \<Rightarrow> store \<Rightarrow> queryObj \<times> store" where
  "buildQuery ops start m h =
     (let (flds, h) = new_strArray [] h;
          (dates, h) = new_dateArray [] h;
          (q, h) = new_qArray (qArrays h (filters_q m)) h;
          (fl, h) = new_strArray (strArrays h (filters_fl m)) h;
          (fq, h) = new_fqArray (fqArrays h (filters_fq m)) h;
          queryObj = \<lparr>qo_fields = flds, qo_dates = dates, qo_q = q, qo_fl = fl, qo_fq = fq,
                      qo_start = start, qo_rows = Num 0, qo_sort = None\<rparr>;
          h = foldl (\<lambda>h (wid, w). alterQuery ops queryObj h w) h (forIn (widgets m))
      in (queryObj, h))"

section \<open>saveQueryToHash and loadQueryFromHash\<close>

definition saveQueryToHash ::
  "codecs \<Rightarrow> queryObj \<Rightarrow> 'w manager \<Rightarrow> store \<Rightarrow> 'w manager \<times> string" where
  "saveQueryToHash cd queryObj m h =
     (let hash = ''#'';
          hash = foldl (\<lambda>hash x. hash @ ''fq='' @ toHashFq cd x @ ''&'') hash
                   (fqArrays h (qo_fq queryObj));
          hash = foldl (\<lambda>hash x. hash @ ''q='' @ toHashQ cd x @ ''&'') hash
                   (qArrays h (qo_q queryObj));
          hash = hash @ ''start='' @ numToString cd (qo_start queryObj);
          location_hash = locationProcessing cd hash
      in (m\<lparr>m_hash := location_hash\<rparr>, location_hash))"

text \<open>
  \<open>if (this.widgets[id]) { this.widgets[id].selectItems(items); }\<close>: a widget is
  called; an inherited member passes the guard and has no \<open>selectItems\<close>, so the call
  throws a TypeError; with nothing under the id the guard fails. \<open>selectedIn\<close> is the
  manager after the call on a widget.
\<close>

definition selectedIn :: "'w widgetOps \<Rightarrow> string \<Rightarrow> string list \<Rightarrow> 'w manager \<Rightarrow> 'w manager" where
  "selectedIn ops wid items m =
     (case map_of (widgets m) wid of
        None \<Rightarrow> m
      | Some w \<Rightarrow> m\<lparr>widgets := AList.update wid (snd (selectItemsW ops items w)) (widgets m)\<rparr>)"

definition selectInWidget ::
  "'w widgetOps \<Rightarrow> string \<Rightarrow> string list \<Rightarrow> 'w manager \<Rightarrow> error + 'w manager" where
  "selectInWidget ops wid items m =
     (case lookupWidget (widgets m) wid of
        Own w \<Rightarrow> Inr (m\<lparr>widgets := AList.update wid (snd (selectItemsW ops items w)) (widgets m)\<rparr>)
      | Inherited \<Rightarrow> Inl TypeError
      | Missing \<Rightarrow> Inr m)"

definition loadSegment :: "codecs \<Rightarrow> 'w widgetOps \<Rightarrow> string \<Rightarrow> 'w manager \<Rightarrow> error + 'w manager" where
  "loadSegment cd ops v m =
     (if take 3 v = ''fq='' then
        (let item = parseHashFq cd (drop 3 v)
         in selectInWidget ops (widgetId item) [fq_value item] m)
      else if take 2 v = ''q='' then
        (let item = parseHashQ cd (drop 2 v)
         in selectInWidget ops ''text'' [q_value item] m)
      else if take 6 v = ''start='' then
        Inr (m\<lparr>m_start := parseInt (drop 6 v)\<rparr>)
      else Inr m)"

text \<open>
  The loop over the segments. An error leaves the loop and the function; the manager is
  then as the segments before it left it.
\<close>

function loadLoop ::
  "codecs \<Rightarrow> 'w widgetOps \<Rightarrow> string list \<Rightarrow> nat \<Rightarrow> 'w manager \<Rightarrow> (error \<times> 'w manager) + 'w manager" where
  "loadLoop cd ops vars i m =
     (if i < length vars then
        (case loadSegment cd ops (vars ! i) m of
           Inl e \<Rightarrow> Inl (e, m)
         | Inr m' \<Rightarrow> loadLoop cd ops vars (Suc i) m')
      else Inr m)"
  by pat_completeness auto
termination
  by (relation "measure (\<lambda>(cd, ops, vars, i, m). length vars - i)") auto

declare loadLoop.simps [simp del]

text \<open>
  A loop whose body changes only the widget it visits gives the same registry in every
  order of visit: it is a map over the entries.
\<close>

definition deselectAllWidgets :: "'w widgetOps \<Rightarrow> 'w manager \<Rightarrow> 'w manager" where
  "deselectAllWidgets ops m = m\<lparr>widgets := map (\<lambda>(wid, w). (wid, deselectAllW ops w)) (widgets m)\<rparr>"

definition loadQueryFromHash ::
  "codecs \<Rightarrow> 'w widgetOps \<Rightarrow> 'w manager \<Rightarrow> string \<Rightarrow> (error \<times> 'w manager) + 'w manager" where
  "loadQueryFromHash cd ops m location_hash =
     (let m = (if length location_hash \<noteq> 0 then deselectAllWidgets ops m else m);
          hash = drop 1 location_hash;
          vars = split CHR ''&'' hash
      in loadLoop cd ops vars 0 m)"

text \<open>The segments handled from left to right, as a recursion on the list.\<close>

fun loadSegments ::
  "codecs \<Rightarrow> 'w widgetOps \<Rightarrow> string list \<Rightarrow> 'w manager \<Rightarrow> (error \<times> 'w manager) + 'w manager" where
  "loadSegments cd ops [] m = Inr m"
| "loadSegments cd ops (v # vs) m =
     (case loadSegment cd ops v m of
        Inl e \<Rightarrow> Inl (e, m)
      | Inr m' \<Rightarrow> loadSegments cd ops vs m')"

section \<open>Requests and selection changes\<close>

text \<open>
  \<open>this.widgets[widgetId].selectItems(items)\<close> without a guard: with nothing under the
  id the member access throws a TypeError, and with an inherited member the call of its
  missing method does.
\<close>

record 'w world =
  mgr :: "'w manager"
  heap :: store
  location_hash :: string

type_synonym 'w result = "(error \<times> 'w world) + 'w world"

text \<open>The abstract hook of the file. A child implementation replaces it.\<close>

definition executeRequest :: "queryObj \<Rightarrow> 'w manager \<Rightarrow> store \<Rightarrow> error + store" where
  "executeRequest queryObj m h = Inl (Thrown ''Abstract method executeRequest'')"

definition doRequest ::
  "codecs \<Rightarrow> 'w widgetOps \<Rightarrow> (queryObj \<Rightarrow> 'w manager \<Rightarrow> store \<Rightarrow> error + store) \<Rightarrow>
   jsnum \<Rightarrow> 'w world \<Rightarrow> 'w result" where
  "doRequest cd ops exec start wld =
     (let (queryObj, h) = buildQuery ops start (mgr wld) (heap wld);
          m = (mgr wld)\<lparr>widgets := map (\<lambda>(wid, w). (wid, startAnimationW ops w)) (widgets (mgr wld))\<rparr>;
          m = m\<lparr>widgets := map (\<lambda>(wid, w). (wid, displayQueryW ops queryObj h w)) (widgets m)\<rparr>
      in case exec queryObj m h of
           Inl e \<Rightarrow> Inl (e, wld\<lparr>mgr := m, heap := h\<rparr>)
         | Inr h \<Rightarrow>
             (let (m, loc) = saveQueryToHash cd queryObj m h
              in Inr (wld\<lparr>mgr := m, heap := h, location_hash := loc\<rparr>)))"

definition selectItems ::
  "codecs \<Rightarrow> 'w widgetOps \<Rightarrow> (queryObj \<Rightarrow> 'w manager \<Rightarrow> store \<Rightarrow> error + store) \<Rightarrow>
   string \<Rightarrow> string list \<Rightarrow> 'w world \<Rightarrow> 'w result" where
  "selectItems cd ops exec wid items wld =
     (case lookupWidget (widgets (mgr wld)) wid of
        Missing \<Rightarrow> Inl (TypeError, wld)
      | Inherited \<Rightarrow> Inl (TypeError, wld)
      | Own w \<Rightarrow>
          (let (changed, w') = selectItemsW ops items w;
               wld = wld\<lparr>mgr := (mgr wld)\<lparr>widgets := AList.update wid w' (widgets (mgr wld))\<rparr>\<rparr>
           in if changed then doRequest cd ops exec (Num 0) wld else Inr wld))"

definition deselectItems ::
  "codecs \<Rightarrow> 'w widgetOps \<Rightarrow> (queryObj \<Rightarrow> 'w manager \<Rightarrow> store \<Rightarrow> error + store) \<Rightarrow>
   string \<Rightarrow> string list \<Rightarrow> 'w world \<Rightarrow> 'w result" where
  "deselectItems cd ops exec wid items wld =
     (case lookupWidget (widgets (mgr wld)) wid of
        Missing \<Rightarrow> Inl (TypeError, wld)
      | Inherited \<Rightarrow> Inl (TypeError, wld)
      | Own w \<Rightarrow>
          (let (changed, w') = deselectItemsW ops items w;
               wld = wld\<lparr>mgr := (mgr wld)\<lparr>widgets := AList.update wid w' (widgets (mgr wld))\<rparr>\<rparr>
           in if changed then doRequest cd ops exec (Num 0) wld else Inr wld))"

definition deselectWidget ::
  "codecs \<Rightarrow> 'w widgetOps \<Rightarrow> (queryObj \<Rightarrow> 'w manager \<Rightarrow> store \<Rightarrow> error + store) \<Rightarrow>
   string \<Rightarrow> 'w world \<Rightarrow> 'w result" where
  "deselectWidget cd ops exec wid wld =
     (case lookupWidget (widgets (mgr wld)) wid of
        Missing \<Rightarrow> Inl (TypeError, wld)
      | Inherited \<Rightarrow> Inl (TypeError, wld)
      | Own w \<Rightarrow>
          doRequest cd ops exec (Num 0)
            (wld\<lparr>mgr := (mgr wld)\<lparr>widgets := AList.update wid (deselectAllW ops w) (widgets (mgr wld))\<rparr>\<rparr>))"

definition selectOnlyItems ::
  "codecs \<Rightarrow> 'w widgetOps \<Rightarrow> (queryObj \<Rightarrow> 'w manager \<Rightarrow> store \<Rightarrow> error + store) \<Rightarrow>
   string \<Rightarrow> string list \<Rightarrow> 'w world \<Rightarrow> 'w result" where
  "selectOnlyItems cd ops exec keepId items wld =
     (let ws = map (\<lambda>(wid, w). if wid = keepId then (wid, snd (selectItemsW ops items w))
                                else (wid, deselectAllW ops w)) (widgets (mgr wld))
      in doRequest cd ops exec (Num 0) (wld\<lparr>mgr := (mgr wld)\<lparr>widgets := ws\<rparr>\<rparr>))"

section \<open>One request cycle as a sequence of operations\<close>

text \<open>
  Within one cycle the manager builds a query object and then, on that object, widgets
  append, the object is serialised (for display or for transmission) and it is saved
  to the hash, in any order and any number of times. \<open>cur\<close> is the object of the cycle.
\<close>

datatype cycleOp =
    CallBuildQuery jsnum
  | WidgetAppend append
  | CallBuildQueryString bool
  | CallSaveQueryToHash

record 'w cycle =
  cur :: "queryObj option"
  cyc_world :: "'w world"

fun cycleStep :: "codecs \<Rightarrow> 'w widgetOps \<Rightarrow> 'w cycle \<Rightarrow> cycleOp \<Rightarrow> 'w cycle" where
  "cycleStep cd ops c (CallBuildQuery start) =
     (let (queryObj, h) = buildQuery ops start (mgr (cyc_world c)) (heap (cyc_world c))
      in \<lparr>cur = Some queryObj, cyc_world = (cyc_world c)\<lparr>heap := h\<rparr>\<rparr>)"
| "cycleStep cd ops c (WidgetAppend a) =
     (case cur c of
        None \<Rightarrow> c
      | Some queryObj \<Rightarrow>
          c\<lparr>cyc_world := (cyc_world c)\<lparr>heap := applyAppend queryObj (heap (cyc_world c)) a\<rparr>\<rparr>)"
| "cycleStep cd ops c (CallBuildQueryString skip) =
     (case cur c of
        None \<Rightarrow> c
      | Some queryObj \<Rightarrow>
          c\<lparr>cyc_world := (cyc_world c)
              \<lparr>heap := snd (buildQueryString cd queryObj skip (mgr (cyc_world c)) (heap (cyc_world c)))\<rparr>\<rparr>)"
| "cycleStep cd ops c CallSaveQueryToHash =
     (case cur c of
        None \<Rightarrow> c
      | Some queryObj \<Rightarrow>
          (let (m, loc) = saveQueryToHash cd queryObj (mgr (cyc_world c)) (heap (cyc_world c))
           in c\<lparr>cyc_world := (cyc_world c)\<lparr>mgr := m, location_hash := loc\<rparr>\<rparr>))"

definition runCycle :: "codecs \<Rightarrow> 'w widgetOps \<Rightarrow> 'w world \<Rightarrow> cycleOp list \<Rightarrow> 'w cycle" where
  "runCycle cd ops wld cops = foldl (cycleStep cd ops) \<lparr>cur = None, cyc_world = wld\<rparr> cops"

section \<open>The shape of the backend string in the words of the specification\<close>

definition dateParams :: "codecs \<Rightarrow> bool \<Rightarrow> DateFacet \<Rightarrow> string" where
  "dateParams cd skip d =
     ''&facet.date='' @ urlencode cd skip (d_field d)
     @ ''&f.'' @ d_field d @ ''.facet.date.start='' @ urlencode cd skip (d_start d)
     @ ''&f.'' @ d_field d @ ''.facet.date.end='' @ urlencode cd skip (d_end d)
     @ ''&f.'' @ d_field d @ ''.facet.date.gap='' @ urlencode cd skip (d_gap d)"

definition sortParam :: "string option \<Rightarrow> string" where
  "sortParam s = (case s of None \<Rightarrow> [] | Some e \<Rightarrow> if e = [] then [] else ''&sort='' @ e)"

text \<open>
  \<open>serialize_spec\<close> follows the nine items of the specification's \<open>serialize\<close>; its
  argument \<open>qpart\<close> is the value of the \<open>q=\<close> parameter. The specification gives that
  value as the encoded terms joined by a space (\<open>qJoined\<close>); the loop of the source
  writes a space after every term (\<open>qTerminated\<close>).
\<close>

definition serialize_spec ::
  "codecs \<Rightarrow> bool \<Rightarrow> string \<Rightarrow> string list \<Rightarrow> DateFacet list \<Rightarrow> FilterQueryItem list \<Rightarrow>
   string list \<Rightarrow> jsnum \<Rightarrow> jsnum \<Rightarrow> string option \<Rightarrow> string \<Rightarrow> string" where
  "serialize_spec cd skip qpart flds dates fqs fl rows start srt hl =
     facetPrefix
     @ concat (map (\<lambda>f. ''&facet.field='' @ urlencode cd skip f) flds)
     @ concat (map (dateParams cd skip) dates)
     @ concat (map (\<lambda>x. ''&fq='' @ toSolrFq cd skip x) fqs)
     @ ''&q='' @ qpart
     @ ''&fl='' @ join '','' (fl @ [''id''])
     @ ''&rows='' @ numToString cd rows
     @ ''&start='' @ numToString cd start
     @ sortParam srt
     @ ''&hl.fl='' @ hl"

definition qJoined :: "codecs \<Rightarrow> bool \<Rightarrow> QueryItem list \<Rightarrow> string" where
  "qJoined cd skip qs = join '' '' (map (toSolrQ cd skip) qs)"

definition qTerminated :: "codecs \<Rightarrow> bool \<Rightarrow> QueryItem list \<Rightarrow> string" where
  "qTerminated cd skip qs = concat (map (\<lambda>x. toSolrQ cd skip x @ '' '') qs)"

section \<open>The round trip through the hash\<close>

definition allSelected :: "'w widgetOps \<Rightarrow> 'w manager \<Rightarrow> string multiset" where
  "allSelected ops m = sum_list (map (\<lambda>(wid, w). mset (selectedItemsW ops w)) (widgets m))"

definition roundTrip :: "codecs \<Rightarrow> 'w widgetOps \<Rightarrow> queryObj \<Rightarrow> 'w manager \<Rightarrow> store \<Rightarrow> bool" where
  "roundTrip cd ops queryObj m h =
     (let (m1, loc) = saveQueryToHash cd queryObj m h
      in case loadQueryFromHash cd ops m1 loc of
           Inl e \<Rightarrow> False
         | Inr m2 \<Rightarrow>
             m_start m2 = qo_start queryObj
             \<and> allSelected ops m2 =
                 mset (map fq_value (fqArrays h (qo_fq queryObj)))
                 + mset (map q_value (qArrays h (qo_q queryObj))))"

section \<open>Concrete collaborators for the scenarios\<close>

text \<open>
  Modelled from the spec: the item codecs and \<open>urlencode\<close> (QueryItem, FilterQueryItem
  and the String extension are not in AbstractManager.js). Values are percent-encoded
  as \<open>encodeURIComponent\<close> does (a code unit from 128 on as the two bytes of its UTF-8
  form); \<open>skip\<close> suppresses the encoding; a filter is written \<open>field:value\<close> and is
  owned by the widget named after its field, as in the specification's fragment
  \<open>#fq=color%3Ared\<close>. Decoding keeps an escape that it cannot read as it is written.
\<close>

definition unreserved :: "char \<Rightarrow> bool" where
  "unreserved c =
     (let n = (of_char c :: nat)
      in (48 \<le> n \<and> n \<le> 57) \<or> (65 \<le> n \<and> n \<le> 90) \<or> (97 \<le> n \<and> n \<le> 122)
         \<or> n \<in> {33, 39, 40, 41, 42, 45, 46, 95, 126})"

definition hexChar :: "nat \<Rightarrow> char" where
  "hexChar d = (if d < 10 then char_of (48 + d) else char_of (55 + d))"

definition percent :: "nat \<Rightarrow> string" where
  "percent b = [CHR ''%'', hexChar (b div 16), hexChar (b mod 16)]"

definition encodeURIComponent :: "string \<Rightarrow> string" where
  "encodeURIComponent s =
     concat (map (\<lambda>c. let n = (of_char c :: nat)
                       in if unreserved c then [c]
                          else if n < 128 then percent n
                          else percent (192 + n div 64) @ percent (128 + n mod 64)) s)"

definition escapeAt :: "string \<Rightarrow> nat option" where
  "escapeAt s =
     (case s of
        c # a # b # rest \<Rightarrow>
          (if c = CHR ''%'' then
             (case (digitVal 16 a, digitVal 16 b) of
                (Some x, Some y) \<Rightarrow> Some (16 * x + y)
              | _ \<Rightarrow> None)
           else None)
      | _ \<Rightarrow> None)"

function decodeURIComponent :: "string \<Rightarrow> string" where
  "decodeURIComponent s =
     (case s of
        [] \<Rightarrow> []
      | c # rest \<Rightarrow>
          (case escapeAt s of
             None \<Rightarrow> c # decodeURIComponent rest
           | Some v \<Rightarrow>
               if v < 128 then char_of v # decodeURIComponent (drop 2 rest)
               else (case escapeAt (drop 2 rest) of
                       None \<Rightarrow> c # decodeURIComponent rest
                     | Some w \<Rightarrow>
                         if (v = 194 \<or> v = 195) \<and> 128 \<le> w \<and> w < 192
                         then char_of ((v - 192) * 64 + (w - 128)) # decodeURIComponent (drop 5 rest)
                         else c # decodeURIComponent rest)))"
  by pat_completeness auto
termination
  by (relation "measure length") auto

declare decodeURIComponent.simps [simp del]

text \<open>
  Modelled from the language standard: an engine that reads every digit of an integer,
  takes the nearest double for it (ties to the even mantissa, an infinity beyond the
  largest double) and prints the shortest decimal that gives this double back, in
  exponent form from \<open>10^21\<close> on.
\<close>

fun bitLength :: "nat \<Rightarrow> nat" where
  "bitLength n = (if n = 0 then 0 else Suc (bitLength (n div 2)))"

declare bitLength.simps [simp del]

definition toDouble :: "nat \<Rightarrow> nat option" where
  "toDouble v =
     (if v < 2 ^ 53 then Some v
      else (let e = bitLength v - 53;
                q = v div 2 ^ e;
                r = v mod 2 ^ e;
                half = 2 ^ (e - 1);
                q' = (if half < r \<or> (r = half \<and> odd q) then q + 1 else q);
                x = q' * 2 ^ e
            in if 2 ^ 1024 \<le> x then None else Some x))"

definition candidates :: "nat \<Rightarrow> nat \<Rightarrow> (nat \<times> nat) list" where
  "candidates x k =
     [(s, n). n \<leftarrow> [length (natToString x), Suc (length (natToString x))], k \<le> n,
              s \<leftarrow> [x div 10 ^ (n - k), Suc (x div 10 ^ (n - k))],
              10 ^ (k - 1) \<le> s, s < 10 ^ k, toDouble (s * 10 ^ (n - k)) = Some x]"

definition distance :: "nat \<Rightarrow> nat \<Rightarrow> nat \<times> nat \<Rightarrow> nat" where
  "distance x k c = nat \<bar>int (fst c * 10 ^ (snd c - k)) - int x\<bar>"

definition closer :: "nat \<Rightarrow> nat \<Rightarrow> nat \<times> nat \<Rightarrow> nat \<times> nat \<Rightarrow> nat \<times> nat" where
  "closer x k a b =
     (if distance x k b < distance x k a
         \<or> (distance x k b = distance x k a \<and> even (fst b) \<and> odd (fst a))
      then b else a)"

definition shortest :: "nat \<Rightarrow> (nat \<times> nat \<times> nat) option" where
  "shortest x =
     (case filter (\<lambda>k. candidates x k \<noteq> []) [1..<18] of
        [] \<Rightarrow> None
      | k # ks \<Rightarrow> Some (k, foldl (closer x k) (hd (candidates x k)) (tl (candidates x k))))"

definition printDigits :: "nat \<times> nat \<times> nat \<Rightarrow> string" where
  "printDigits r =
     (let k = fst r; s = fst (snd r); n = snd (snd r); ds = natToString s
      in if n \<le> 21 then ds @ replicate (n - k) CHR ''0''
         else (if k = 1 then ds else hd ds # CHR ''.'' # tl ds) @ ''e+'' @ natToString (n - 1))"

definition printRounded :: "int \<Rightarrow> string" where
  "printRounded i =
     (if i < 0 then ''-'' else [])
     @ (case toDouble (nat \<bar>i\<bar>) of
          None \<Rightarrow> ''Infinity''
        | Some x \<Rightarrow> (case shortest x of None \<Rightarrow> natToString x | Some r \<Rightarrow> printDigits r))"

definition scenarioCodecs :: codecs where
  "scenarioCodecs =
     \<lparr>urlencode = (\<lambda>skip s. if skip then s else encodeURIComponent s),
      toSolrQ = (\<lambda>skip x. if skip then q_value x else encodeURIComponent (q_value x)),
      toSolrFq = (\<lambda>skip x. if skip then fq_field x @ '':'' @ fq_value x
                            else encodeURIComponent (fq_field x @ '':'' @ fq_value x)),
      toHashQ = (\<lambda>x. encodeURIComponent (q_value x)),
      toHashFq = (\<lambda>x. encodeURIComponent (fq_field x @ '':'' @ fq_value x)),
      parseHashQ = (\<lambda>s. \<lparr>q_value = decodeURIComponent s\<rparr>),
      parseHashFq = (\<lambda>s. let d = decodeURIComponent s;
                              f = takeWhile (\<lambda>c. c \<noteq> CHR '':'') d
                          in \<lparr>widgetId = f, fq_field = f,
                              fq_value = drop 1 (dropWhile (\<lambda>c. c \<noteq> CHR '':'') d)\<rparr>),
      locationProcessing = (\<lambda>s. s),
      roundedToString = printRounded\<rparr>"

text \<open>
  Modelled from the spec: a widget that keeps a list of selected terms without
  duplicates, reports whether a call changed it, and appends one term to \<open>q\<close> per
  selected item (the widget \<open>text\<close> of the specification's scenario).
\<close>

definition addItem :: "string list \<Rightarrow> string \<Rightarrow> string list" where
  "addItem sel x = (if x \<in> set sel then sel else sel @ [x])"

definition termOps :: "string list widgetOps" where
  "termOps =
     \<lparr>selectItemsW = (\<lambda>items sel. (foldl addItem sel items \<noteq> sel, foldl addItem sel items)),
      deselectItemsW = (\<lambda>items sel. (filter (\<lambda>x. x \<notin> set items) sel \<noteq> sel,
                                      filter (\<lambda>x. x \<notin> set items) sel)),
      deselectAllW = (\<lambda>sel. []),
      alterQueryW = (\<lambda>sel. map (\<lambda>v. PushQ \<lparr>q_value = v\<rparr>) sel),
      startAnimationW = (\<lambda>w. w),
      displayQueryW = (\<lambda>queryObj h w. w),
      selectedItemsW = (\<lambda>sel. sel)\<rparr>"

text \<open>
  Modelled from the spec: a transport (a child's \<open>executeRequest\<close>, not in
  AbstractManager.js) that serialises the query object for transmission, with encoding.
\<close>

definition sendRequest :: "codecs \<Rightarrow> queryObj \<Rightarrow> 'w manager \<Rightarrow> store \<Rightarrow> error + store" where
  "sendRequest cd queryObj m h = Inr (snd (buildQueryString cd queryObj False m h))"

text \<open>
  Base filters \<open>{q: [], fq: [], fl: ["title"]}\<close> at the addresses 0, 1 and 2, the
  default highlight field, and one registry entry with the given id and selection.
\<close>

definition scenarioStore :: store where
  "scenarioStore =
     \<lparr>next_ref = 3, strArrays = (\<lambda>r. [])(2 := [''title'']), qArrays = (\<lambda>r. []),
      fqArrays = (\<lambda>r. []), dateArrays = (\<lambda>r. [])\<rparr>"

definition scenarioManager :: "string \<Rightarrow> string list \<Rightarrow> string list manager" where
  "scenarioManager wid sel =
     \<lparr>filters_q = 0, filters_fq = 1, filters_fl = 2, hlFl = ''body'',
      widgets = [(wid, sel)], m_start = Num 0, m_hash = []\<rparr>"

definition scenarioWorld :: "string \<Rightarrow> string list \<Rightarrow> string list world" where
  "scenarioWorld wid sel = \<lparr>mgr = scenarioManager wid sel, heap = scenarioStore, location_hash = []\<rparr>"

section \<open>What the widgets contribute to a query object\<close>

text \<open>
  The entries that a list of appends adds to each array, the appends of all registered
  widgets in registry order, and the query object and store that \<open>buildQuery\<close> has
  before it calls the widgets.
\<close>

fun fieldOf :: "append \<Rightarrow> string list" where
  "fieldOf (PushField f) = [f]"
| "fieldOf a = []"

fun dateOf :: "append \<Rightarrow> DateFacet list" where
  "dateOf (PushDate d) = [d]"
| "dateOf a = []"

fun qOf :: "append \<Rightarrow> QueryItem list" where
  "qOf (PushQ x) = [x]"
| "qOf a = []"

fun flOf :: "append \<Rightarrow> string list" where
  "flOf (PushFl f) = [f]"
| "flOf a = []"

fun fqOf :: "append \<Rightarrow> FilterQueryItem list" where
  "fqOf (PushFq x) = [x]"
| "fqOf a = []"

definition contributions :: "'w widgetOps \<Rightarrow> 'w manager \<Rightarrow> append list" where
  "contributions ops m = concat (map (\<lambda>(wid, w). alterQueryW ops w) (forIn (widgets m)))"

definition initialQuery :: "jsnum \<Rightarrow> store \<Rightarrow> queryObj" where
  "initialQuery start h =
     \<lparr>qo_fields = next_ref h, qo_dates = Suc (next_ref h), qo_q = Suc (Suc (next_ref h)),
      qo_fl = Suc (Suc (Suc (next_ref h))), qo_fq = Suc (Suc (Suc (Suc (next_ref h)))),
      qo_start = start, qo_rows = Num 0, qo_sort = None\<rparr>"

definition allocated :: "'w manager \<Rightarrow> store \<Rightarrow> store" where
  "allocated m h =
     (let (flds, h) = new_strArray [] h;
          (dates, h) = new_dateArray [] h;
          (q, h) = new_qArray (qArrays h (filters_q m)) h;
          (fl, h) = new_strArray (strArrays h (filters_fl m)) h;
          (fq, h) = new_fqArray (fqArrays h (filters_fq m)) h
      in h)"

text \<open>
  The base filter arrays exist in the store: their addresses have been given out.
  \<open>cycleInv\<close> is the invariant of a request cycle: the store only grows, the object
  of the cycle lives at addresses given out during the cycle, and every array that
  existed before the cycle has kept its content.
\<close>

definition allocatedBase :: "'w manager \<Rightarrow> store \<Rightarrow> bool" where
  "allocatedBase m h =
     (filters_q m < next_ref h \<and> filters_fq m < next_ref h \<and> filters_fl m < next_ref h)"

definition freshObj :: "nat \<Rightarrow> queryObj option \<Rightarrow> bool" where
  "freshObj n c =
     (case c of None \<Rightarrow> True
      | Some qo \<Rightarrow> n \<le> qo_fields qo \<and> n \<le> qo_dates qo \<and> n \<le> qo_q qo
                    \<and> n \<le> qo_fl qo \<and> n \<le> qo_fq qo)"

definition sameBelow :: "nat \<Rightarrow> store \<Rightarrow> store \<Rightarrow> bool" where
  "sameBelow n h0 h =
     (\<forall>r<n. strArrays h r = strArrays h0 r \<and> qArrays h r = qArrays h0 r
           \<and> fqArrays h r = fqArrays h0 r \<and> dateArrays h r = dateArrays h0 r)"

definition cycleInv :: "'w world \<Rightarrow> 'w cycle \<Rightarrow> bool" where
  "cycleInv w0 c =
     (next_ref (heap w0) \<le> next_ref (heap (cyc_world c))
      \<and> freshObj (next_ref (heap w0)) (cur c)
      \<and> sameBelow (next_ref (heap w0)) (heap w0) (heap (cyc_world c))
      \<and> filters_q (mgr (cyc_world c)) = filters_q (mgr w0)
      \<and> filters_fq (mgr (cyc_world c)) = filters_fq (mgr w0)
      \<and> filters_fl (mgr (cyc_world c)) = filters_fl (mgr w0))"

text \<open>
  For the round trip: the numbers that the model holds exactly (\<open>NaN\<close> and the
  integers up to \<open>2^53\<close> in magnitude); strings of decimal digits; the widget and value that each item of
  a query object is routed to when its segment is loaded; codecs that round-trip on the
  items and write no \<open>&\<close>; and widgets whose selection is a set of values.
\<close>

definition exactNumber :: "jsnum \<Rightarrow> bool" where
  "exactNumber x = (case x of Num i \<Rightarrow> \<bar>i\<bar> \<le> maxExact | NaN \<Rightarrow> True | Rounded i \<Rightarrow> False)"

definition isDigitString :: "string \<Rightarrow> bool" where
  "isDigitString ds = (ds \<noteq> [] \<and> set ds \<subseteq> digitChar ` {0..<10})"

definition routes :: "FilterQueryItem list \<Rightarrow> QueryItem list \<Rightarrow> (string \<times> string) list" where
  "routes fqs qs = map (\<lambda>x. (widgetId x, fq_value x)) fqs @ map (\<lambda>x. (''text'', q_value x)) qs"

definition hashSafe :: "codecs \<Rightarrow> FilterQueryItem list \<Rightarrow> QueryItem list \<Rightarrow> bool" where
  "hashSafe cd fqs qs =
     ((\<forall>x\<in>set fqs. parseHashFq cd (toHashFq cd x) = x \<and> CHR ''&'' \<notin> set (toHashFq cd x))
      \<and> (\<forall>x\<in>set qs. parseHashQ cd (toHashQ cd x) = x \<and> CHR ''&'' \<notin> set (toHashQ cd x)))"

definition setSelection :: "'w widgetOps \<Rightarrow> bool" where
  "setSelection ops =
     ((\<forall>w. selectedItemsW ops (deselectAllW ops w) = [])
      \<and> (\<forall>w v. v \<notin> set (selectedItemsW ops w) \<longrightarrow>
            mset (selectedItemsW ops (snd (selectItemsW ops [v] w)))
              = add_mset v (mset (selectedItemsW ops w))))"

section \<open>Properties of buildQueryString\<close>

lemma foldl_append_concat: "foldl (\<lambda>acc x. acc @ f x) a xs = a @ concat (map f xs)"
  by (induction xs arbitrary: a) simp_all

lemma addDate_dateParams: "addDate cd skip query d = query @ dateParams cd skip d"
  by (simp add: addDate_def dateParams_def Let_def)

lemma foldl_addDate: "foldl (addDate cd skip) a ds = a @ concat (map (dateParams cd skip) ds)"
  by (induction ds arbitrary: a) (simp_all add: addDate_dateParams)

lemma addSort_sortParam: "addSort query s = query @ sortParam s"
  by (cases s) (simp_all add: sortParam_def)

lemma buildQueryString_string:
  "fst (buildQueryString cd queryObj skip m h) =
     serialize_spec cd skip (qTerminated cd skip (qArrays h (qo_q queryObj)))
       (strArrays h (qo_fields queryObj)) (dateArrays h (qo_dates queryObj))
       (fqArrays h (qo_fq queryObj)) (strArrays h (qo_fl queryObj))
       (qo_rows queryObj) (qo_start queryObj) (qo_sort queryObj) (hlFl m)"
  by (simp add: buildQueryString_def serialize_spec_def qTerminated_def Let_def
      foldl_append_concat foldl_addDate addSort_sortParam push_str_def)

lemma buildQueryString_store:
  "snd (buildQueryString cd queryObj skip m h) = push_str (qo_fl queryObj) ''id'' h"
  by (simp add: buildQueryString_def Let_def)

lemma join_snoc: "join sep (xs @ [a]) = (if xs = [] then a else join sep xs @ sep @ a)"
  by (induction sep xs rule: join.induct) simp_all

lemma length_serialize_spec:
  "length (serialize_spec cd skip qpart flds dates fqs fl rows start srt hl) =
     length (concat (map (\<lambda>f. ''&facet.field='' @ urlencode cd skip f) flds))
     + length (join '','' (fl @ [''id'']))
     + length (serialize_spec cd skip qpart [] dates fqs [] rows start srt hl) - 2"
  by (simp add: serialize_spec_def)

lemma buildQueryString_longer:
  "length (fst (buildQueryString cd queryObj skip m h))
     < length (fst (buildQueryString cd queryObj skip m (snd (buildQueryString cd queryObj skip m h))))"
proof -
  let ?h1 = "snd (buildQueryString cd queryObj skip m h)"
  let ?enc = "\<lambda>f. ''&facet.field='' @ urlencode cd skip f"
  have fl: "strArrays ?h1 (qo_fl queryObj) = strArrays h (qo_fl queryObj) @ [''id'']"
    by (simp add: buildQueryString_store push_str_def)
  have flds: "length (concat (map ?enc (strArrays h (qo_fields queryObj))))
                \<le> length (concat (map ?enc (strArrays ?h1 (qo_fields queryObj))))"
    by (simp add: buildQueryString_store push_str_def)
  have rest: "qArrays ?h1 = qArrays h" "fqArrays ?h1 = fqArrays h" "dateArrays ?h1 = dateArrays h"
    by (simp_all add: buildQueryString_store push_str_def)
  have j: "length (join '','' ((strArrays h (qo_fl queryObj) @ [''id'']) @ [''id'']))
             = length (join '','' (strArrays h (qo_fl queryObj) @ [''id''])) + 3"
    by (simp only: join_snoc) simp
  show ?thesis
    unfolding buildQueryString_string
    apply (subst (1 2) length_serialize_spec)
    using flds j by (simp add: fl rest serialize_spec_def)
qed

text \<open>
  C1 (as the code has it). For every query object, store, manager and encoding flag,
  \<open>buildQueryString\<close> returns the fixed prefix, one \<open>facet.field=\<close> per entry of
  \<open>fields\<close>, the four date parameters per entry of \<open>dates\<close>, one \<open>fq=\<close> per filter,
  one \<open>q=\<close> whose value is every encoded term followed by a space (empty for no term),
  \<open>fl=\<close> with \<open>id\<close> appended to the field list before the comma join, \<open>rows=\<close>,
  \<open>start=\<close>, \<open>sort=\<close> when a non-empty sort is set, and \<open>hl.fl=\<close> with the
  configured highlight field, in this order.
\<close>

theorem buildQueryString_shape:
  "fst (buildQueryString cd queryObj skip m h) =
     serialize_spec cd skip (qTerminated cd skip (qArrays h (qo_q queryObj)))
       (strArrays h (qo_fields queryObj)) (dateArrays h (qo_dates queryObj))
       (fqArrays h (qo_fq queryObj)) (strArrays h (qo_fl queryObj))
       (qo_rows queryObj) (qo_start queryObj) (qo_sort queryObj) (hlFl m)"
  by (rule buildQueryString_string)

text \<open>
  C1 as it is written fails: with the single term \<open>cats\<close> the value of \<open>q=\<close> is
  \<open>cats\<close> followed by a space, not the terms joined by a space.
\<close>

theorem buildQueryString_not_joined:
  "(let (queryObj, h) = buildQuery termOps (Num 0) (scenarioManager ''text'' [''cats'']) scenarioStore
    in fst (buildQueryString scenarioCodecs queryObj False (scenarioManager ''text'' [''cats'']) h)
       \<noteq> serialize_spec scenarioCodecs False (qJoined scenarioCodecs False (qArrays h (qo_q queryObj)))
           (strArrays h (qo_fields queryObj)) (dateArrays h (qo_dates queryObj))
           (fqArrays h (qo_fq queryObj)) (strArrays h (qo_fl queryObj))
           (qo_rows queryObj) (qo_start queryObj) (qo_sort queryObj) ''body'')"
  by code_simp

text \<open>
  C9. \<open>buildQueryString\<close> pushes \<open>id\<close> onto the \<open>fl\<close> array of its argument: after
  one call the array is the old one followed by \<open>id\<close>, after two calls it is followed
  by \<open>id\<close> twice, the second string differs from the first, and the store is not the
  one the first call received.
\<close>

theorem buildQueryString_pushes_id:
  "strArrays (snd (buildQueryString cd queryObj skip m h)) (qo_fl queryObj)
     = strArrays h (qo_fl queryObj) @ [''id'']
   \<and> strArrays (snd (buildQueryString cd queryObj skip m
                     (snd (buildQueryString cd queryObj skip m h)))) (qo_fl queryObj)
     = strArrays h (qo_fl queryObj) @ [''id'', ''id'']
   \<and> fst (buildQueryString cd queryObj skip m (snd (buildQueryString cd queryObj skip m h)))
     \<noteq> fst (buildQueryString cd queryObj skip m h)
   \<and> snd (buildQueryString cd queryObj skip m h) \<noteq> h"
proof -
  have a: "strArrays (snd (buildQueryString cd queryObj skip m h)) (qo_fl queryObj)
             = strArrays h (qo_fl queryObj) @ [''id'']"
    by (simp add: buildQueryString_store push_str_def)
  have b: "strArrays (snd (buildQueryString cd queryObj skip m
                     (snd (buildQueryString cd queryObj skip m h)))) (qo_fl queryObj)
             = strArrays h (qo_fl queryObj) @ [''id'', ''id'']"
    by (simp add: buildQueryString_store push_str_def)
  have c: "fst (buildQueryString cd queryObj skip m (snd (buildQueryString cd queryObj skip m h)))
             \<noteq> fst (buildQueryString cd queryObj skip m h)"
    using buildQueryString_longer [of cd queryObj skip m h] by auto
  have d: "snd (buildQueryString cd queryObj skip m h) \<noteq> h"
    using a by auto
  from a b c d show ?thesis by blast
qed

section \<open>Properties of buildQuery\<close>

lemmas store_defs = new_strArray_def new_qArray_def new_fqArray_def new_dateArray_def
  push_str_def push_q_def push_fq_def push_date_def

lemma applyAppend_next [simp]: "next_ref (applyAppend qo h a) = next_ref h"
  by (cases a) (simp_all add: store_defs)

lemma applyAppend_q:
  "qArrays (applyAppend qo h a) r = (if r = qo_q qo then qArrays h r @ qOf a else qArrays h r)"
  by (cases a) (simp_all add: store_defs)

lemma applyAppend_fq:
  "fqArrays (applyAppend qo h a) r = (if r = qo_fq qo then fqArrays h r @ fqOf a else fqArrays h r)"
  by (cases a) (simp_all add: store_defs)

lemma applyAppend_date:
  "dateArrays (applyAppend qo h a) r = (if r = qo_dates qo then dateArrays h r @ dateOf a else dateArrays h r)"
  by (cases a) (simp_all add: store_defs)

lemma applyAppend_str:
  "strArrays (applyAppend qo h a) r =
     strArrays h r @ (if r = qo_fields qo then fieldOf a else []) @ (if r = qo_fl qo then flOf a else [])"
  by (cases a) (simp_all add: store_defs)

lemma appends_next [simp]: "next_ref (foldl (applyAppend qo) h as) = next_ref h"
  by (induction as arbitrary: h) simp_all

lemma appends_q:
  "qArrays (foldl (applyAppend qo) h as) r =
     (if r = qo_q qo then qArrays h r @ concat (map qOf as) else qArrays h r)"
  by (induction as arbitrary: h) (simp_all add: applyAppend_q)

lemma appends_fq:
  "fqArrays (foldl (applyAppend qo) h as) r =
     (if r = qo_fq qo then fqArrays h r @ concat (map fqOf as) else fqArrays h r)"
  by (induction as arbitrary: h) (simp_all add: applyAppend_fq)

lemma appends_date:
  "dateArrays (foldl (applyAppend qo) h as) r =
     (if r = qo_dates qo then dateArrays h r @ concat (map dateOf as) else dateArrays h r)"
  by (induction as arbitrary: h) (simp_all add: applyAppend_date)

lemma appends_str_other:
  "r \<noteq> qo_fields qo \<Longrightarrow> r \<noteq> qo_fl qo \<Longrightarrow> strArrays (foldl (applyAppend qo) h as) r = strArrays h r"
  by (induction as arbitrary: h) (simp_all add: applyAppend_str)

lemma appends_fields:
  "qo_fields qo \<noteq> qo_fl qo \<Longrightarrow>
   strArrays (foldl (applyAppend qo) h as) (qo_fields qo) = strArrays h (qo_fields qo) @ concat (map fieldOf as)"
  by (induction as arbitrary: h) (simp_all add: applyAppend_str)

lemma appends_fl:
  "qo_fields qo \<noteq> qo_fl qo \<Longrightarrow>
   strArrays (foldl (applyAppend qo) h as) (qo_fl qo) = strArrays h (qo_fl qo) @ concat (map flOf as)"
  by (induction as arbitrary: h) (simp_all add: applyAppend_str)

lemma alterQuery_widgets:
  "foldl (\<lambda>h p. alterQuery ops qo h (snd p)) h ws
     = foldl (applyAppend qo) h (concat (map (\<lambda>p. alterQueryW ops (snd p)) ws))"
  by (induction ws arbitrary: h) (simp_all add: alterQuery_def)

lemma buildQuery_obj: "fst (buildQuery ops start m h) = initialQuery start h"
  by (simp add: buildQuery_def initialQuery_def store_defs Let_def split_def)

lemma allocated_next: "next_ref (allocated m h) = Suc (Suc (Suc (Suc (Suc (next_ref h)))))"
  by (simp add: allocated_def store_defs Let_def split_def)

lemma allocated_q:
  "qArrays (allocated m h) = (qArrays h)(Suc (Suc (next_ref h)) := qArrays h (filters_q m))"
  by (simp add: allocated_def store_defs Let_def split_def)

lemma allocated_fq:
  "fqArrays (allocated m h) = (fqArrays h)(Suc (Suc (Suc (Suc (next_ref h)))) := fqArrays h (filters_fq m))"
  by (simp add: allocated_def store_defs Let_def split_def)

lemma allocated_date:
  "dateArrays (allocated m h) = (dateArrays h)(Suc (next_ref h) := [])"
  by (simp add: allocated_def store_defs Let_def split_def)

lemma allocated_str:
  "filters_fl m < next_ref h \<Longrightarrow>
   strArrays (allocated m h) =
     (strArrays h)(next_ref h := [], Suc (Suc (Suc (next_ref h))) := strArrays h (filters_fl m))"
  by (simp add: allocated_def store_defs Let_def split_def)

lemma buildQuery_store:
  "snd (buildQuery ops start m h)
     = foldl (applyAppend (initialQuery start h)) (allocated m h) (contributions ops m)"
  by (simp add: buildQuery_def initialQuery_def allocated_def contributions_def store_defs Let_def split_def
      alterQuery_widgets)

lemma buildQuery_q:
  "qArrays (snd (buildQuery ops start m h)) r =
     (if r = Suc (Suc (next_ref h)) then qArrays h (filters_q m) @ concat (map qOf (contributions ops m))
      else qArrays h r)"
  by (simp add: buildQuery_store appends_q) (simp add: initialQuery_def allocated_q allocated_fq allocated_date allocated_str allocated_next)

lemma buildQuery_fq:
  "fqArrays (snd (buildQuery ops start m h)) r =
     (if r = Suc (Suc (Suc (Suc (next_ref h)))) then fqArrays h (filters_fq m) @ concat (map fqOf (contributions ops m))
      else fqArrays h r)"
  by (simp add: buildQuery_store appends_fq) (simp add: initialQuery_def allocated_q allocated_fq allocated_date allocated_str allocated_next)

lemma buildQuery_dates:
  "dateArrays (snd (buildQuery ops start m h)) r =
     (if r = Suc (next_ref h) then concat (map dateOf (contributions ops m))
      else dateArrays h r)"
  by (simp add: buildQuery_store appends_date) (simp add: initialQuery_def allocated_q allocated_fq allocated_date allocated_str allocated_next)

lemma buildQuery_str:
  "filters_fl m < next_ref h \<Longrightarrow>
   strArrays (snd (buildQuery ops start m h)) r =
     (if r = next_ref h then concat (map fieldOf (contributions ops m))
      else if r = Suc (Suc (Suc (next_ref h)))
        then strArrays h (filters_fl m) @ concat (map flOf (contributions ops m))
      else strArrays h r)"
proof -
  assume a: "filters_fl m < next_ref h"
  let ?qo = "initialQuery start h"
  have ne: "qo_fields ?qo \<noteq> qo_fl ?qo" by (simp add: initialQuery_def)
  show ?thesis
  proof (cases "r = next_ref h")
    case True
    then have "r = qo_fields ?qo" by (simp add: initialQuery_def)
    then show ?thesis using a True
      by (simp add: buildQuery_store appends_fields [OF ne]) (simp add: initialQuery_def allocated_q allocated_fq allocated_date allocated_str allocated_next)
  next
    case False
    show ?thesis
    proof (cases "r = Suc (Suc (Suc (next_ref h)))")
      case True
      then have "r = qo_fl ?qo" by (simp add: initialQuery_def)
      then show ?thesis using a True
        by (simp add: buildQuery_store appends_fl [OF ne]) (simp add: initialQuery_def allocated_q allocated_fq allocated_date allocated_str allocated_next)
    next
      case F2: False
      have "r \<noteq> qo_fields ?qo" "r \<noteq> qo_fl ?qo" using False F2 by (simp_all add: initialQuery_def)
      then show ?thesis using a False F2
        by (simp add: buildQuery_store appends_str_other) (simp add: allocated_q allocated_fq allocated_date allocated_str allocated_next)
    qed
  qed
qed

lemma buildQuery_next:
  "next_ref (snd (buildQuery ops start m h)) = Suc (Suc (Suc (Suc (Suc (next_ref h)))))"
  by (simp add: buildQuery_store) (simp add: allocated_q allocated_fq allocated_date allocated_str allocated_next)

section \<open>The base filters during a request cycle\<close>

lemma saveQueryToHash_mgr:
  "fst (saveQueryToHash cd qo m h) = m\<lparr>m_hash := snd (saveQueryToHash cd qo m h)\<rparr>"
  by (simp add: saveQueryToHash_def Let_def)

lemma cycleStep_inv:
  assumes "allocatedBase (mgr w0) (heap w0)" and "cycleInv w0 c"
  shows "cycleInv w0 (cycleStep cd ops c cop)"
proof (cases cop)
  case (CallBuildQuery start)
  let ?m = "mgr (cyc_world c)" and ?h = "heap (cyc_world c)"
  have fl: "filters_fl ?m < next_ref ?h"
    using assms by (simp add: allocatedBase_def cycleInv_def)
  have le: "next_ref (heap w0) \<le> next_ref ?h" using assms by (simp add: cycleInv_def)
  have same: "sameBelow (next_ref (heap w0)) (heap w0) ?h" using assms by (simp add: cycleInv_def)
  have "sameBelow (next_ref (heap w0)) (heap w0) (snd (buildQuery ops start ?m ?h))"
    using same le fl
    by (simp add: sameBelow_def buildQuery_q buildQuery_fq buildQuery_dates buildQuery_str)
  moreover have "freshObj (next_ref (heap w0)) (Some (fst (buildQuery ops start ?m ?h)))"
    using le by (simp add: freshObj_def buildQuery_obj initialQuery_def)
  moreover have "next_ref (heap w0) \<le> next_ref (snd (buildQuery ops start ?m ?h))"
    using le by (simp add: buildQuery_next)
  ultimately show ?thesis
    using assms(2) CallBuildQuery by (simp add: cycleInv_def split_def Let_def)
next
  case (WidgetAppend a)
  show ?thesis
  proof (cases "cur c")
    case None
    then show ?thesis using assms(2) WidgetAppend by simp
  next
    case (Some qo)
    then show ?thesis using assms(2) WidgetAppend
      by (auto simp add: cycleInv_def freshObj_def sameBelow_def applyAppend_q applyAppend_fq
          applyAppend_date applyAppend_str)
  qed
next
  case (CallBuildQueryString skip)
  show ?thesis
  proof (cases "cur c")
    case None
    then show ?thesis using assms(2) CallBuildQueryString by simp
  next
    case (Some qo)
    then show ?thesis using assms(2) CallBuildQueryString
      by (auto simp add: cycleInv_def freshObj_def sameBelow_def buildQueryString_store push_str_def)
  qed
next
  case CallSaveQueryToHash
  show ?thesis
  proof (cases "cur c")
    case None
    then show ?thesis using assms(2) CallSaveQueryToHash by simp
  next
    case (Some qo)
    then show ?thesis using assms(2) CallSaveQueryToHash
      by (simp add: cycleInv_def split_def Let_def saveQueryToHash_mgr)
  qed
qed

lemma runCycle_inv:
  assumes "allocatedBase (mgr w0) (heap w0)"
  shows "cycleInv w0 (runCycle cd ops w0 cops)"
proof -
  have "cycleInv w0 c \<Longrightarrow> cycleInv w0 (foldl (cycleStep cd ops) c cops)" for c
    by (induction cops arbitrary: c) (simp_all add: cycleStep_inv [OF assms])
  moreover have "cycleInv w0 \<lparr>cur = None, cyc_world = w0\<rparr>"
    by (simp add: cycleInv_def freshObj_def sameBelow_def)
  ultimately show ?thesis by (simp add: runCycle_def)
qed

text \<open>
  C8. Whatever sequence of \<open>buildQuery\<close>, widget appends, \<open>buildQueryString\<close> and
  \<open>saveQueryToHash\<close> a request cycle runs, the arrays \<open>filters.q\<close>, \<open>filters.fq\<close>
  and \<open>filters.fl\<close> hold at the end what they held at the start, and the manager
  still refers to the same three arrays: the query object works on copies.
\<close>

theorem base_filters_never_mutated:
  assumes "allocatedBase (mgr w0) (heap w0)"
  shows "qArrays (heap (cyc_world (runCycle cd ops w0 cops))) (filters_q (mgr w0))
           = qArrays (heap w0) (filters_q (mgr w0))
       \<and> fqArrays (heap (cyc_world (runCycle cd ops w0 cops))) (filters_fq (mgr w0))
           = fqArrays (heap w0) (filters_fq (mgr w0))
       \<and> strArrays (heap (cyc_world (runCycle cd ops w0 cops))) (filters_fl (mgr w0))
           = strArrays (heap w0) (filters_fl (mgr w0))
       \<and> filters_q (mgr (cyc_world (runCycle cd ops w0 cops))) = filters_q (mgr w0)
       \<and> filters_fq (mgr (cyc_world (runCycle cd ops w0 cops))) = filters_fq (mgr w0)
       \<and> filters_fl (mgr (cyc_world (runCycle cd ops w0 cops))) = filters_fl (mgr w0)"
  using runCycle_inv [OF assms, of cd ops cops] assms
  by (simp add: cycleInv_def sameBelow_def allocatedBase_def)

text \<open>
  A cycle on the scenario's manager that builds, lets a widget append a field,
  serialises twice and saves: \<open>filters.fl\<close> is still \<open>["title"]\<close>.
\<close>

theorem base_filters_never_mutated_witness:
  "allocatedBase (mgr (scenarioWorld ''text'' [''cats''])) (heap (scenarioWorld ''text'' [''cats'']))
   \<and> strArrays (heap (cyc_world (runCycle scenarioCodecs termOps (scenarioWorld ''text'' [''cats''])
        [CallBuildQuery (Num 0), WidgetAppend (PushFl ''author''), CallBuildQueryString True,
         CallBuildQueryString False, CallSaveQueryToHash]))) 2 = [''title'']"
proof -
  have a: "allocatedBase (mgr (scenarioWorld ''text'' [''cats''])) (heap (scenarioWorld ''text'' [''cats'']))"
    by (simp add: allocatedBase_def scenarioWorld_def scenarioManager_def scenarioStore_def)
  show ?thesis
    using a base_filters_never_mutated [OF a, of scenarioCodecs termOps
        "[CallBuildQuery (Num 0), WidgetAppend (PushFl ''author''), CallBuildQueryString True,
          CallBuildQueryString False, CallSaveQueryToHash]"]
    by (simp add: scenarioWorld_def scenarioManager_def scenarioStore_def)
qed

section \<open>The result of buildQuery\<close>

lemma forIn_index_part:
  "filter (\<lambda>e. arrayIndex (fst e) \<noteq> None) (forIn ws)
     = sort_key indexKey (filter (\<lambda>e. arrayIndex (fst e) \<noteq> None) ws)"
  by (auto simp add: forIn_def filter_sort filter_empty_conv)

lemma forIn_name_part:
  "filter (\<lambda>e. arrayIndex (fst e) = None) (forIn ws) = filter (\<lambda>e. arrayIndex (fst e) = None) ws"
proof -
  have "filter (\<lambda>e. arrayIndex (fst e) = None)
          (sort_key indexKey (filter (\<lambda>e. arrayIndex (fst e) \<noteq> None) ws)) = []"
    by (auto simp add: filter_empty_conv)
  then show ?thesis by (simp add: forIn_def)
qed

lemma forIn_mset: "mset (forIn ws) = mset ws"
  by (simp add: forIn_def)

lemma forIn_names: "\<forall>e\<in>set ws. arrayIndex (fst e) = None \<Longrightarrow> forIn ws = ws"
  by (simp add: forIn_def)

text \<open>
  C2 (as the code has it). For every start offset and registry, \<open>buildQuery\<close> returns
  a query object with the given \<open>start\<close>, \<open>rows = 0\<close> and no sort, whose five arrays
  are at addresses not given out before (so none is a base filter array); \<open>q\<close>, \<open>fl\<close>
  and \<open>fq\<close> hold the content of the base filters, \<open>fields\<close> and \<open>dates\<close> nothing,
  each followed by what the registered widgets appended. Every registered widget is
  called once, in the order of \<open>for ... in\<close>: first the widgets whose id is an array
  index, by ascending index, then the others in registration order; that is
  registration order when no id is an array index.
\<close>

theorem buildQuery_result:
  assumes "allocatedBase m h"
  shows "(let (queryObj, h') = buildQuery ops start m h in
            qo_start queryObj = start \<and> qo_rows queryObj = Num 0 \<and> qo_sort queryObj = None
          \<and> next_ref h \<le> qo_fields queryObj \<and> next_ref h \<le> qo_dates queryObj
          \<and> next_ref h \<le> qo_q queryObj \<and> next_ref h \<le> qo_fl queryObj
          \<and> next_ref h \<le> qo_fq queryObj \<and> qo_fields queryObj \<noteq> qo_fl queryObj
          \<and> strArrays h' (qo_fields queryObj) = concat (map fieldOf (contributions ops m))
          \<and> dateArrays h' (qo_dates queryObj) = concat (map dateOf (contributions ops m))
          \<and> qArrays h' (qo_q queryObj)
              = qArrays h (filters_q m) @ concat (map qOf (contributions ops m))
          \<and> strArrays h' (qo_fl queryObj)
              = strArrays h (filters_fl m) @ concat (map flOf (contributions ops m))
          \<and> fqArrays h' (qo_fq queryObj)
              = fqArrays h (filters_fq m) @ concat (map fqOf (contributions ops m)))
       \<and> contributions ops m = concat (map (\<lambda>(wid, w). alterQueryW ops w) (forIn (widgets m)))
       \<and> mset (forIn (widgets m)) = mset (widgets m)
       \<and> forIn (widgets m)
           = filter (\<lambda>e. arrayIndex (fst e) \<noteq> None) (forIn (widgets m))
             @ filter (\<lambda>e. arrayIndex (fst e) = None) (forIn (widgets m))
       \<and> sorted (map indexKey (filter (\<lambda>e. arrayIndex (fst e) \<noteq> None) (forIn (widgets m))))
       \<and> filter (\<lambda>e. arrayIndex (fst e) = None) (forIn (widgets m))
           = filter (\<lambda>e. arrayIndex (fst e) = None) (widgets m)
       \<and> ((\<forall>e\<in>set (widgets m). arrayIndex (fst e) = None) \<longrightarrow> forIn (widgets m) = widgets m)"
proof -
  have fl: "filters_fl m < next_ref h" using assms by (simp add: allocatedBase_def)
  have built: "(let (queryObj, h') = buildQuery ops start m h in
            qo_start queryObj = start \<and> qo_rows queryObj = Num 0 \<and> qo_sort queryObj = None
          \<and> next_ref h \<le> qo_fields queryObj \<and> next_ref h \<le> qo_dates queryObj
          \<and> next_ref h \<le> qo_q queryObj \<and> next_ref h \<le> qo_fl queryObj
          \<and> next_ref h \<le> qo_fq queryObj \<and> qo_fields queryObj \<noteq> qo_fl queryObj
          \<and> strArrays h' (qo_fields queryObj) = concat (map fieldOf (contributions ops m))
          \<and> dateArrays h' (qo_dates queryObj) = concat (map dateOf (contributions ops m))
          \<and> qArrays h' (qo_q queryObj)
              = qArrays h (filters_q m) @ concat (map qOf (contributions ops m))
          \<and> strArrays h' (qo_fl queryObj)
              = strArrays h (filters_fl m) @ concat (map flOf (contributions ops m))
          \<and> fqArrays h' (qo_fq queryObj)
              = fqArrays h (filters_fq m) @ concat (map fqOf (contributions ops m)))"
    by (simp add: split_def buildQuery_obj buildQuery_q buildQuery_fq buildQuery_dates
        buildQuery_str [OF fl]) (simp add: initialQuery_def)
  have order: "forIn (widgets m)
           = filter (\<lambda>e. arrayIndex (fst e) \<noteq> None) (forIn (widgets m))
             @ filter (\<lambda>e. arrayIndex (fst e) = None) (forIn (widgets m))"
    unfolding forIn_index_part forIn_name_part by (simp add: forIn_def)
  have sorted: "sorted (map indexKey (filter (\<lambda>e. arrayIndex (fst e) \<noteq> None) (forIn (widgets m))))"
    unfolding forIn_index_part by (rule sorted_sort_key)
  show ?thesis
    using built order sorted forIn_mset [of "widgets m"] forIn_name_part [of "widgets m"]
      forIn_names [of "widgets m"]
    by (simp add: contributions_def)
qed

text \<open>
  Widgets registered as \<open>b\<close>, \<open>10\<close>, \<open>9\<close>, in this order, are called in the order
  \<open>9\<close>, \<open>10\<close>, \<open>b\<close>.
\<close>

theorem buildQuery_result_witness:
  "allocatedBase ((scenarioManager ''b'' [''x''])\<lparr>widgets := [(''b'', [''x'']), (''10'', [''y'']), (''9'', [''z''])]\<rparr>)
     scenarioStore
   \<and> (let (queryObj, h') = buildQuery termOps (Num 7)
          ((scenarioManager ''b'' [''x''])\<lparr>widgets := [(''b'', [''x'']), (''10'', [''y'']), (''9'', [''z''])]\<rparr>)
          scenarioStore in
        qo_start queryObj = Num 7 \<and> qo_rows queryObj = Num 0
        \<and> strArrays h' (qo_fields queryObj) = []
        \<and> qArrays h' (qo_q queryObj) = [\<lparr>q_value = ''z''\<rparr>, \<lparr>q_value = ''y''\<rparr>, \<lparr>q_value = ''x''\<rparr>]
        \<and> strArrays h' (qo_fl queryObj) = [''title''])
   \<and> forIn [(''b'', [''x'']), (''10'', [''y'']), (''9'', [''z''])]
       = [(''9'', [''z'']), (''10'', [''y'']), (''b'', [''x''])]"
proof -
  let ?m = "(scenarioManager ''b'' [''x''])\<lparr>widgets := [(''b'', [''x'']), (''10'', [''y'']), (''9'', [''z''])]\<rparr>"
  have a: "allocatedBase ?m scenarioStore"
    by (simp add: allocatedBase_def scenarioManager_def scenarioStore_def)
  have f: "forIn [(''b'', [''x'']), (''10'', [''y'']), (''9'', [''z''])]
             = [(''9'', [''z'']), (''10'', [''y'']), (''b'', [''x''])]"
    by code_simp
  have w: "widgets ?m = [(''b'', [''x'']), (''10'', [''y'']), (''9'', [''z''])]"
    by (simp add: scenarioManager_def)
  have c: "contributions termOps ?m = [PushQ \<lparr>q_value = ''z''\<rparr>, PushQ \<lparr>q_value = ''y''\<rparr>, PushQ \<lparr>q_value = ''x''\<rparr>]"
    by (simp add: contributions_def w f termOps_def)
  note r = buildQuery_result [OF a, of termOps "Num 7", THEN conjunct1]
  show ?thesis
    using a f r by (simp add: split_def Let_def c) (simp add: scenarioManager_def scenarioStore_def)
qed

text \<open>
  C2 as it is written fails: with \<open>b\<close> registered before \<open>1\<close>, the widget \<open>1\<close> is
  called first, so \<open>q\<close> does not hold the terms in registration order.
\<close>

theorem buildQuery_not_in_registration_order:
  "(let m = (scenarioManager ''b'' [''x''])\<lparr>widgets := [(''b'', [''x'']), (''1'', [''y''])]\<rparr>;
        (queryObj, h') = buildQuery termOps (Num 0) m scenarioStore
    in qArrays h' (qo_q queryObj) = [\<lparr>q_value = ''y''\<rparr>, \<lparr>q_value = ''x''\<rparr>]
       \<and> qArrays h' (qo_q queryObj)
           \<noteq> qArrays scenarioStore (filters_q m)
              @ concat (map qOf (concat (map (\<lambda>(wid, w). alterQueryW termOps w) (widgets m)))))"
  by code_simp

section \<open>Numbers and \<open>parseInt\<close>\<close>

lemma digitChar_code: "d < 10 \<Longrightarrow> (of_char (digitChar d) :: nat) = 48 + d"
  by (simp add: digitChar_def)

lemma digitVal_digitChar: "d < 10 \<Longrightarrow> digitVal 10 (digitChar d) = Some d"
  by (simp add: digitVal_def digitChar_code Let_def)

lemma digitChar_plain:
  assumes "d < 10"
  shows "\<not> isWhiteSpace (digitChar d)" "digitChar d \<noteq> CHR ''-''" "digitChar d \<noteq> CHR ''+''"
    "digitChar d \<noteq> CHR ''x''" "digitChar d \<noteq> CHR ''X''" "digitChar d \<noteq> CHR ''&''"
proof -
  have c: "(of_char (digitChar d) :: nat) = 48 + d" using assms by (rule digitChar_code)
  show "\<not> isWhiteSpace (digitChar d)" using assms by (simp add: isWhiteSpace_def c)
  show "digitChar d \<noteq> CHR ''-''" using c by auto
  show "digitChar d \<noteq> CHR ''+''" using c by auto
  show "digitChar d \<noteq> CHR ''x''" using c assms by auto
  show "digitChar d \<noteq> CHR ''X''" using c assms by auto
  show "digitChar d \<noteq> CHR ''&''" using c by auto
qed

lemma natToString_digits: "isDigitString (natToString n)"
proof (induction n rule: natToString.induct)
  case (1 n)
  show ?case
  proof (cases "n < 10")
    case True
    then show ?thesis by (auto simp add: natToString.simps [of n] isDigitString_def)
  next
    case False
    with 1 have "isDigitString (natToString (n div 10))" by simp
    moreover have "n mod 10 < 10" by simp
    ultimately show ?thesis using False
      by (auto simp add: natToString.simps [of n] isDigitString_def)
  qed
qed

lemma digitsValue_snoc:
  "digitsValue r (ds @ [c]) = digitsValue r ds * r + (case digitVal r c of None \<Rightarrow> 0 | Some d \<Rightarrow> d)"
  by (simp add: digitsValue_def)

lemma digitsValue_natToString: "digitsValue 10 (natToString n) = n"
proof (induction n rule: natToString.induct)
  case (1 n)
  show ?case
  proof (cases "n < 10")
    case True
    then show ?thesis
      by (simp add: natToString.simps [of n] digitsValue_def digitVal_digitChar)
  next
    case False
    with 1 have "digitsValue 10 (natToString (n div 10)) = n div 10" by simp
    then show ?thesis using False
      by (simp add: natToString.simps [of n] digitsValue_snoc digitVal_digitChar)
  qed
qed

lemma parseDigits_digits:
  assumes "isDigitString ds"
  shows "parseDigits 10 ds = Some (digitsValue 10 ds)"
proof -
  have "\<forall>c\<in>set ds. digitVal 10 c \<noteq> None"
    using assms by (auto simp add: isDigitString_def digitVal_digitChar)
  then have tw: "takeWhile (\<lambda>c. digitVal 10 c \<noteq> None) ds = ds"
    by (simp only: takeWhile_eq_all_conv)
  have "ds \<noteq> []" using assms by (simp add: isDigitString_def)
  then show ?thesis unfolding parseDigits_def Let_def tw by simp
qed

lemma digits_not_hex:
  assumes "isDigitString ds"
  shows "take 2 ds \<noteq> ''0x''" "take 2 ds \<noteq> ''0X''"
proof -
  obtain a as where ds: "ds = a # as" using assms by (cases ds) (auto simp: isDigitString_def)
  show "take 2 ds \<noteq> ''0x''"
  proof (cases as)
    case Nil
    then show ?thesis using ds by simp
  next
    case (Cons b bs)
    then obtain d where "d < 10" "b = digitChar d" using assms ds by (auto simp: isDigitString_def)
    then show ?thesis using ds Cons digitChar_plain(4) [of d] by auto
  qed
  show "take 2 ds \<noteq> ''0X''"
  proof (cases as)
    case Nil
    then show ?thesis using ds by simp
  next
    case (Cons b bs)
    then obtain d where "d < 10" "b = digitChar d" using assms ds by (auto simp: isDigitString_def)
    then show ?thesis using ds Cons digitChar_plain(5) [of d] by auto
  qed
qed

lemma parseInt_digits:
  assumes "isDigitString ds" and "int (digitsValue 10 ds) \<le> maxExact"
  shows "parseInt ds = Num (int (digitsValue 10 ds))"
    and "parseInt (CHR ''-'' # ds) = Num (- int (digitsValue 10 ds))"
proof -
  obtain a as where ds: "ds = a # as" using assms(1) by (cases ds) (auto simp: isDigitString_def)
  then obtain d where d: "d < 10" "a = digitChar d" using assms(1) by (auto simp: isDigitString_def)
  have plain: "\<not> isWhiteSpace a" "a \<noteq> CHR ''-''" "a \<noteq> CHR ''+''"
    using digitChar_plain [OF d(1)] d(2) by simp_all
  have dw: "dropWhile isWhiteSpace ds = ds" using plain ds by simp
  have t1: "take 1 ds \<noteq> ''-''" "take 1 ds \<noteq> ''+''" using plain ds by simp_all
  note nh = digits_not_hex [OF assms(1)]
  note pd = parseDigits_digits [OF assms(1)]
  show "parseInt ds = Num (int (digitsValue 10 ds))"
    unfolding parseInt_def Let_def dw using t1 nh pd assms(2) by simp
  have dw2: "dropWhile isWhiteSpace (CHR ''-'' # ds) = CHR ''-'' # ds"
    by (simp add: isWhiteSpace_def)
  show "parseInt (CHR ''-'' # ds) = Num (- int (digitsValue 10 ds))"
    unfolding parseInt_def Let_def dw2 using nh pd assms(2) by simp
qed


lemma parseInt_numToString: "exactNumber x \<Longrightarrow> parseInt (numToString cd x) = x"
proof (cases x)
  case (Num i)
  assume "exactNumber x"
  then have b: "\<bar>i\<bar> \<le> maxExact" using Num by (simp add: exactNumber_def)
  show ?thesis
  proof (cases "i < 0")
    case True
    then have "int (nat (- i)) \<le> maxExact" using b by simp
    then show ?thesis using Num True b
      by (simp add: intToString_def parseInt_digits(2) [OF natToString_digits] digitsValue_natToString)
  next
    case False
    then have "int (nat i) \<le> maxExact" using b by simp
    then show ?thesis using Num False b
      by (simp add: intToString_def parseInt_digits(1) [OF natToString_digits] digitsValue_natToString)
  qed
next
  case NaN
  have "parseInt ''NaN'' = NaN" by code_simp
  then show ?thesis using NaN by simp
next
  case (Rounded i)
  assume "exactNumber x"
  then show ?thesis using Rounded by (simp add: exactNumber_def)
qed

lemma amp_notin_numToString: "exactNumber x \<Longrightarrow> CHR ''&'' \<notin> set (numToString cd x)"
proof (cases x)
  case (Num i)
  assume "exactNumber x"
  then have b: "\<bar>i\<bar> \<le> maxExact" using Num by (simp add: exactNumber_def)
  have "CHR ''&'' \<notin> set (natToString n)" for n
    using natToString_digits [of n] digitChar_plain(6) by (fastforce simp: isDigitString_def)
  then show ?thesis using Num b by (simp add: intToString_def)
next
  case NaN
  then show ?thesis by simp
next
  case (Rounded i)
  assume "exactNumber x"
  then show ?thesis using Rounded by (simp add: exactNumber_def)
qed



lemma parseInt_examples:
  "parseInt [] = NaN" "parseInt ''abc'' = NaN" "parseInt ''-abc'' = NaN" "parseInt '' x'' = NaN"
  "parseInt ''0xg'' = NaN" "parseInt ''12abc'' = Num 12" "parseInt '' -7'' = Num (- 7)"
  "parseInt ''1e+21'' = Num 1" "parseInt ''0x1F'' = Num 31"
  "parseInt (char_of (160 :: nat) # ''5'') = Num 5"
  by code_simp+

section \<open>Loading the hash\<close>

lemma loadLoop_segments:
  "loadLoop cd ops vars i m = loadSegments cd ops (drop i vars) m"
proof (induction cd ops vars i m rule: loadLoop.induct)
  case (1 cd ops vars i m)
  show ?case
  proof (cases "i < length vars")
    case True
    then have d: "drop i vars = vars ! i # drop (Suc i) vars"
      by (simp add: Cons_nth_drop_Suc)
    show ?thesis
    proof (cases "loadSegment cd ops (vars ! i) m")
      case (Inl e)
      then show ?thesis using True d by (simp add: loadLoop.simps [of cd ops vars i m])
    next
      case (Inr m')
      then show ?thesis using True d 1 by (simp add: loadLoop.simps [of cd ops vars i m])
    qed
  next
    case False
    then show ?thesis by (simp add: loadLoop.simps [of cd ops vars i m])
  qed
qed

lemma loadQueryFromHash_segments:
  "loadQueryFromHash cd ops m loc =
     loadSegments cd ops (split CHR ''&'' (drop 1 loc)) (if loc = [] then m else deselectAllWidgets ops m)"
  by (simp add: loadQueryFromHash_def loadLoop_segments Let_def)

lemma split_no_sep: "c \<notin> set a \<Longrightarrow> split c a = [a]"
  by (induction a) auto

lemma split_append_sep: "c \<notin> set a \<Longrightarrow> split c (a @ c # r) = a # split c r"
  by (induction a) auto

lemma split_segments:
  "\<forall>s\<in>set segs. c \<notin> set s \<Longrightarrow> c \<notin> set lst \<Longrightarrow>
   split c (concat (map (\<lambda>s. s @ [c]) segs) @ lst) = segs @ [lst]"
  by (induction segs) (simp_all add: split_no_sep split_append_sep)


lemma selectInWidget_cases:
  "selectInWidget ops wid items m =
     (case map_of (widgets m) wid of
        Some w \<Rightarrow> Inr (m\<lparr>widgets := AList.update wid (snd (selectItemsW ops items w)) (widgets m)\<rparr>)
      | None \<Rightarrow> if objectPrototypeMember wid then Inl TypeError else Inr m)"
  by (simp add: selectInWidget_def lookupWidget_def split: option.splits)

lemma loadSegment_fq:
  "loadSegment cd ops (''fq='' @ r) m =
     selectInWidget ops (widgetId (parseHashFq cd r)) [fq_value (parseHashFq cd r)] m"
  by (simp add: loadSegment_def Let_def)

lemma loadSegment_q:
  "loadSegment cd ops (''q='' @ r) m = selectInWidget ops ''text'' [q_value (parseHashQ cd r)] m"
  by (simp add: loadSegment_def Let_def)



lemma loadSegment_start:
  "loadSegment cd ops (''start='' @ r) m = Inr (m\<lparr>m_start := parseInt r\<rparr>)"
  by (simp add: loadSegment_def Let_def)













section \<open>Selection changes\<close>

text \<open>
  C10. With an id that is not registered, \<open>selectItems\<close>, \<open>deselectItems\<close> and
  \<open>deselectWidget\<close> fail with a TypeError (a call of a member that is \<open>undefined\<close>)
  and leave the state as it was. The guarded call that \<open>loadQueryFromHash\<close> uses does
  nothing for such an id, unless the id names a member that the registry inherits from
  \<open>Object.prototype\<close>: then the guard lets it through and the call fails as well.
\<close>

theorem unregistered_widget_fails:
  assumes "map_of (widgets (mgr wld)) wid = None"
  shows "selectItems cd ops exec wid items wld = Inl (TypeError, wld)
       \<and> deselectItems cd ops exec wid items wld = Inl (TypeError, wld)
       \<and> deselectWidget cd ops exec wid wld = Inl (TypeError, wld)
       \<and> (\<not> objectPrototypeMember wid \<longrightarrow>
            selectInWidget ops wid items (mgr wld) = Inr (mgr wld))
       \<and> (objectPrototypeMember wid \<longrightarrow>
            selectInWidget ops wid items (mgr wld) = Inl TypeError)"
  using assms
  by (simp add: selectItems_def deselectItems_def deselectWidget_def selectInWidget_def
      lookupWidget_def)

text \<open>The ids \<open>colour\<close> and \<open>constructor\<close> in a registry that holds only \<open>text\<close>.\<close>

theorem unregistered_widget_fails_witness:
  "map_of (widgets (mgr (scenarioWorld ''text'' [''cats'']))) ''colour'' = None
   \<and> selectItems scenarioCodecs termOps (sendRequest scenarioCodecs) ''colour'' [''red'']
        (scenarioWorld ''text'' [''cats'']) = Inl (TypeError, scenarioWorld ''text'' [''cats''])
   \<and> deselectItems scenarioCodecs termOps (sendRequest scenarioCodecs) ''colour'' [''red'']
        (scenarioWorld ''text'' [''cats'']) = Inl (TypeError, scenarioWorld ''text'' [''cats''])
   \<and> deselectWidget scenarioCodecs termOps (sendRequest scenarioCodecs) ''colour''
        (scenarioWorld ''text'' [''cats'']) = Inl (TypeError, scenarioWorld ''text'' [''cats''])
   \<and> \<not> objectPrototypeMember ''colour''
   \<and> selectInWidget termOps ''colour'' [''red''] (mgr (scenarioWorld ''text'' [''cats'']))
        = Inr (mgr (scenarioWorld ''text'' [''cats'']))
   \<and> map_of (widgets (mgr (scenarioWorld ''text'' [''cats'']))) ''constructor'' = None
   \<and> objectPrototypeMember ''constructor''
   \<and> selectItems scenarioCodecs termOps (sendRequest scenarioCodecs) ''constructor'' [''red'']
        (scenarioWorld ''text'' [''cats'']) = Inl (TypeError, scenarioWorld ''text'' [''cats''])
   \<and> selectInWidget termOps ''constructor'' [''red''] (mgr (scenarioWorld ''text'' [''cats'']))
        = Inl TypeError"
proof -
  have a: "map_of (widgets (mgr (scenarioWorld ''text'' [''cats'']))) ''colour'' = None"
    by (simp add: scenarioWorld_def scenarioManager_def)
  have b: "map_of (widgets (mgr (scenarioWorld ''text'' [''cats'']))) ''constructor'' = None"
    by (simp add: scenarioWorld_def scenarioManager_def)
  have c: "\<not> objectPrototypeMember ''colour''" "objectPrototypeMember ''constructor''"
    by (simp_all add: objectPrototypeMember_def)
  show ?thesis
    using a b c
      unregistered_widget_fails [OF a, of scenarioCodecs termOps "sendRequest scenarioCodecs" "[''red'']"]
      unregistered_widget_fails [OF b, of scenarioCodecs termOps "sendRequest scenarioCodecs" "[''red'']"]
    by simp
qed

lemma map_of_map_entries:
  "map_of (map (\<lambda>(k, v). (k, f k v)) al) k = map_option (f k) (map_of al k)"
  by (induction al) auto

text \<open>
  C7 (as the code has it). \<open>selectOnlyItems\<close> calls \<open>deselectAll\<close> on every registered
  widget except the one registered under the given id, calls \<open>selectItems\<close> with the
  given items on that one without clearing it first, and then runs a request with start
  offset 0.
\<close>

theorem selectOnlyItems_effect:
  "selectOnlyItems cd ops exec keepId items wld =
     doRequest cd ops exec (Num 0)
       (wld\<lparr>mgr := (mgr wld)\<lparr>widgets :=
          map (\<lambda>(wid, w). (wid, if wid = keepId then snd (selectItemsW ops items w)
                                 else deselectAllW ops w)) (widgets (mgr wld))\<rparr>\<rparr>)
   \<and> map_of (map (\<lambda>(wid, w). (wid, if wid = keepId then snd (selectItemsW ops items w)
                                 else deselectAllW ops w)) (widgets (mgr wld))) wid
       = map_option (\<lambda>w. if wid = keepId then snd (selectItemsW ops items w) else deselectAllW ops w)
           (map_of (widgets (mgr wld)) wid)"
proof -
  have "(\<lambda>(wid, w). if wid = keepId then (wid, snd (selectItemsW ops items w)) else (wid, deselectAllW ops w))
          = (\<lambda>(wid, w). (wid, if wid = keepId then snd (selectItemsW ops items w) else deselectAllW ops w))"
    by auto
  then show ?thesis
    by (simp add: selectOnlyItems_def Let_def
        map_of_map_entries [where f = "\<lambda>wid w. if wid = keepId then snd (selectItemsW ops items w) else deselectAllW ops w"])
qed

text \<open>
  C7 as it is written fails: with \<open>dogs\<close> selected on \<open>text\<close>, selecting only \<open>cats\<close>
  on \<open>text\<close> leaves \<open>dogs\<close> and \<open>cats\<close> selected, not exactly \<open>cats\<close>.
\<close>

theorem selectOnlyItems_keeps_selection:
  "(case selectOnlyItems scenarioCodecs termOps (sendRequest scenarioCodecs) ''text'' [''cats'']
           (scenarioWorld ''text'' [''dogs'']) of
      Inl e \<Rightarrow> None
    | Inr w \<Rightarrow> map_option (selectedItemsW termOps) (map_of (widgets (mgr w)) ''text''))
   = Some [''dogs'', ''cats'']"
  by code_simp

text \<open>
  With the hook of the file itself a request stops at \<open>executeRequest\<close>: the error is
  thrown after the widgets were told to animate and display, and nothing is saved to
  the hash.
\<close>

lemma doRequest_abstract:
  "\<exists>w. doRequest cd ops executeRequest start wld = Inl (Thrown ''Abstract method executeRequest'', w)
       \<and> location_hash w = location_hash wld \<and> m_hash (mgr w) = m_hash (mgr wld)"
  by (simp add: doRequest_def executeRequest_def Let_def split_def)

section \<open>The scenario of the specification\<close>

text \<open>
  C6 (as the code has it). In the scenario, selecting \<open>cats\<close> on \<open>text\<close> succeeds and
  leaves the fragment \<open>#q=cats&start=0\<close>. The query object that \<open>buildQuery\<close> returns
  has \<open>q = ["cats"]\<close>, \<open>fl = ["title"]\<close> and \<open>start = 0\<close>; serialising it makes
  \<open>fl = ["title", "id"]\<close>, and the string contains \<open>q=cats\<close> followed by a plain space
  and \<open>fl=title,id\<close>.
\<close>

theorem scenario_cats:
  "(case selectItems scenarioCodecs termOps (sendRequest scenarioCodecs) ''text'' [''cats'']
           (scenarioWorld ''text'' []) of
      Inl e \<Rightarrow> False
    | Inr w \<Rightarrow> location_hash w = ''#q=cats&start=0'' \<and> widgets (mgr w) = [(''text'', [''cats''])])
   \<and> (let (queryObj, h) = buildQuery termOps (Num 0) (scenarioManager ''text'' [''cats'']) scenarioStore;
          (s, h') = buildQueryString scenarioCodecs queryObj False (scenarioManager ''text'' [''cats'']) h
      in qArrays h (qo_q queryObj) = [\<lparr>q_value = ''cats''\<rparr>]
         \<and> strArrays h (qo_fl queryObj) = [''title'']
         \<and> qo_start queryObj = Num 0
         \<and> strArrays h' (qo_fl queryObj) = [''title'', ''id'']
         \<and> s = ''facet=true&facet.limit=40&facet.sort=true&facet.mincount=1&hl=true&q=cats &fl=title,id&rows=0&start=0&hl.fl=body''
         \<and> sublist ''q=cats '' s \<and> sublist ''fl=title,id'' s)"
  by code_simp

text \<open>
  C6 as it is written fails: the object that \<open>buildQuery\<close> returns does not have
  \<open>fl = ["title", "id"]\<close>, and the serialised string does not contain \<open>q=cats%20\<close>.
\<close>

theorem scenario_not_as_described:
  "(let (queryObj, h) = buildQuery termOps (Num 0) (scenarioManager ''text'' [''cats'']) scenarioStore
    in strArrays h (qo_fl queryObj) \<noteq> [''title'', ''id'']
       \<and> \<not> sublist ''q=cats%20''
            (fst (buildQueryString scenarioCodecs queryObj False (scenarioManager ''text'' [''cats'']) h)))"
  by code_simp

section \<open>Saving and then loading\<close>

lemma saveQueryToHash_hash:
  "snd (saveQueryToHash cd qo m h) =
     locationProcessing cd
       (CHR ''#'' # concat (map (\<lambda>s. s @ ''&'')
                      (map (\<lambda>x. ''fq='' @ toHashFq cd x) (fqArrays h (qo_fq qo))
                       @ map (\<lambda>x. ''q='' @ toHashQ cd x) (qArrays h (qo_q qo))))
        @ ''start='' @ numToString cd (qo_start qo))"
  by (simp add: saveQueryToHash_def Let_def foldl_append_concat comp_def)

lemma selectInWidget_registered:
  "k \<in> fst ` set (widgets m) \<Longrightarrow> selectInWidget ops k items m = Inr (selectedIn ops k items m)"
proof -
  assume "k \<in> fst ` set (widgets m)"
  then obtain w where "map_of (widgets m) k = Some w"
    by (metis domD dom_map_of_conv_image_fst)
  then show ?thesis by (simp add: selectInWidget_cases selectedIn_def)
qed

lemma selectedIn_lookup:
  "map_of (widgets (selectedIn ops k items m)) k' =
     (if k' = k then map_option (\<lambda>w. snd (selectItemsW ops items w)) (map_of (widgets m) k)
      else map_of (widgets m) k')"
  by (cases "map_of (widgets m) k") (simp_all add: selectedIn_def update_conv')

lemma selectedIn_keys:
  "fst ` set (widgets (selectedIn ops k items m)) = fst ` set (widgets m)"
proof -
  have "dom (map_of (widgets (selectedIn ops k items m))) = dom (map_of (widgets m))"
    by (auto simp add: selectedIn_lookup dom_def split: if_splits)
  then show ?thesis by (simp add: dom_map_of_conv_image_fst)
qed

lemma loadSegments_append:
  "loadSegments cd ops (xs @ ys) m =
     (case loadSegments cd ops xs m of Inl e \<Rightarrow> Inl e | Inr m' \<Rightarrow> loadSegments cd ops ys m')"
  by (induction xs arbitrary: m) (simp_all split: sum.splits)

lemma loadSegments_routed:
  assumes "list_all2 (\<lambda>v p. \<forall>m'. fst ` set (widgets m') = K \<longrightarrow>
              loadSegment cd ops v m' = Inr (selectedIn ops (fst p) [snd p] m')) vs ps"
    and "fst ` set (widgets m) = K"
  shows "loadSegments cd ops vs m
           = Inr (foldl (\<lambda>m p. selectedIn ops (fst p) [snd p] m) m ps)"
  using assms
proof (induction vs ps arbitrary: m rule: list_all2_induct)
  case Nil
  then show ?case by simp
next
  case (Cons v vs p ps)
  have s: "loadSegment cd ops v m = Inr (selectedIn ops (fst p) [snd p] m)"
    using Cons.hyps(1) Cons.prems by blast
  have k: "fst ` set (widgets (selectedIn ops (fst p) [snd p] m)) = K"
    using Cons.prems by (simp add: selectedIn_keys)
  show ?case using s Cons.IH [OF k] by simp
qed

lemma load_segments:
  assumes safe: "hashSafe cd fqs qs"
    and reg: "\<forall>p\<in>set (routes fqs qs). fst p \<in> fst ` set (widgets m)"
  shows "loadSegments cd ops
           (map (\<lambda>x. ''fq='' @ toHashFq cd x) fqs @ map (\<lambda>x. ''q='' @ toHashQ cd x) qs) m
         = Inr (foldl (\<lambda>m p. selectedIn ops (fst p) [snd p] m) m (routes fqs qs))"
proof -
  let ?K = "fst ` set (widgets m)"
  have fq: "loadSegment cd ops (''fq='' @ toHashFq cd x) m'
              = Inr (selectedIn ops (widgetId x) [fq_value x] m')"
    if "x \<in> set fqs" and "fst ` set (widgets m') = ?K" for x m'
  proof -
    have "parseHashFq cd (toHashFq cd x) = x" using safe that(1) by (simp add: hashSafe_def)
    moreover have "widgetId x \<in> fst ` set (widgets m')"
      using reg that by (force simp add: routes_def)
    ultimately show ?thesis
      unfolding loadSegment_fq by (simp add: selectInWidget_registered)
  qed
  have q: "loadSegment cd ops (''q='' @ toHashQ cd x) m'
              = Inr (selectedIn ops ''text'' [q_value x] m')"
    if "x \<in> set qs" and "fst ` set (widgets m') = ?K" for x m'
  proof -
    have "parseHashQ cd (toHashQ cd x) = x" using safe that(1) by (simp add: hashSafe_def)
    moreover have "''text'' \<in> fst ` set (widgets m')"
      using reg that by (force simp add: routes_def)
    ultimately show ?thesis
      unfolding loadSegment_q by (simp add: selectInWidget_registered)
  qed
  have a: "list_all2 (\<lambda>v p. \<forall>m'. fst ` set (widgets m') = ?K \<longrightarrow>
              loadSegment cd ops v m' = Inr (selectedIn ops (fst p) [snd p] m'))
            (map (\<lambda>x. ''fq='' @ toHashFq cd x) fqs) (map (\<lambda>x. (widgetId x, fq_value x)) fqs)"
    unfolding list_all2_map1 list_all2_map2 list_all2_same using fq by simp
  have b: "list_all2 (\<lambda>v p. \<forall>m'. fst ` set (widgets m') = ?K \<longrightarrow>
              loadSegment cd ops v m' = Inr (selectedIn ops (fst p) [snd p] m'))
            (map (\<lambda>x. ''q='' @ toHashQ cd x) qs) (map (\<lambda>x. (''text'', q_value x)) qs)"
    unfolding list_all2_map1 list_all2_map2 list_all2_same using q by simp
  show ?thesis
    unfolding routes_def
    by (rule loadSegments_routed [OF list_all2_appendI [OF a b] refl])
qed

lemma selected_update:
  fixes g :: "'w \<Rightarrow> string multiset"
  shows "map_of al k = Some w \<Longrightarrow> g w' = add_mset v (g w) \<Longrightarrow>
         sum_list (map (\<lambda>(k, w). g w) (AList.update k w' al))
           = add_mset v (sum_list (map (\<lambda>(k, w). g w) al))"
  by (induction al) auto

lemma selectedIn_selected:
  assumes "setSelection ops" and "map_of (widgets m) k = Some w"
    and "v \<notin> set (selectedItemsW ops w)"
  shows "allSelected ops (selectedIn ops k [v] m) = add_mset v (allSelected ops m)"
proof -
  have "mset (selectedItemsW ops (snd (selectItemsW ops [v] w)))
          = add_mset v (mset (selectedItemsW ops w))"
    using assms(1,3) by (simp add: setSelection_def)
  then show ?thesis
    using assms(2)
    by (simp add: allSelected_def selectedIn_def
        selected_update [where g = "\<lambda>w. mset (selectedItemsW ops w)"])
qed

lemma route_all:
  assumes sel: "setSelection ops"
  shows "\<forall>p\<in>set ps. fst p \<in> fst ` set (widgets m) \<Longrightarrow> distinct ps \<Longrightarrow>
         \<forall>p\<in>set ps. \<forall>w. map_of (widgets m) (fst p) = Some w \<longrightarrow> snd p \<notin> set (selectedItemsW ops w) \<Longrightarrow>
         allSelected ops (foldl (\<lambda>m p. selectedIn ops (fst p) [snd p] m) m ps)
           = allSelected ops m + mset (map snd ps)"
proof (induction ps arbitrary: m)
  case Nil
  then show ?case by simp
next
  case (Cons p ps)
  obtain k v where p: "p = (k, v)" by (cases p)
  let ?m' = "selectedIn ops k [v] m"
  from Cons.prems(1) p have "k \<in> fst ` set (widgets m)" by simp
  then obtain w where w: "map_of (widgets m) k = Some w"
    by (metis domD dom_map_of_conv_image_fst)
  from Cons.prems(3) p w have fresh: "v \<notin> set (selectedItemsW ops w)" by auto
  have step: "allSelected ops ?m' = add_mset v (allSelected ops m)"
    by (rule selectedIn_selected [OF sel w fresh])
  have grown: "set (selectedItemsW ops (snd (selectItemsW ops [v] w)))
                 = insert v (set (selectedItemsW ops w))"
  proof -
    have "mset (selectedItemsW ops (snd (selectItemsW ops [v] w)))
            = add_mset v (mset (selectedItemsW ops w))"
      using sel fresh by (simp add: setSelection_def)
    then have "set_mset (mset (selectedItemsW ops (snd (selectItemsW ops [v] w))))
                 = set_mset (add_mset v (mset (selectedItemsW ops w)))" by simp
    then show ?thesis by simp
  qed
  have keys: "\<forall>q\<in>set ps. fst q \<in> fst ` set (widgets ?m')"
    using Cons.prems(1) by (simp add: selectedIn_keys)
  have dist: "distinct ps" and notin: "(k, v) \<notin> set ps" using Cons.prems(2) p by simp_all
  have unsel: "\<forall>q\<in>set ps. \<forall>w'. map_of (widgets ?m') (fst q) = Some w'
                 \<longrightarrow> snd q \<notin> set (selectedItemsW ops w')"
  proof (intro ballI allI impI)
    fix q w' assume q: "q \<in> set ps" and l: "map_of (widgets ?m') (fst q) = Some w'"
    show "snd q \<notin> set (selectedItemsW ops w')"
    proof (cases "fst q = k")
      case True
      with l w have w': "w' = snd (selectItemsW ops [v] w)" by (simp add: selectedIn_lookup)
      have "snd q \<noteq> v" using q notin True by (cases q) auto
      moreover have "snd q \<notin> set (selectedItemsW ops w)"
        using Cons.prems(3) q True w by auto
      ultimately show ?thesis using w' grown by simp
    next
      case False
      with l have "map_of (widgets m) (fst q) = Some w'" by (simp add: selectedIn_lookup)
      then show ?thesis using Cons.prems(3) q by auto
    qed
  qed
  have "allSelected ops (foldl (\<lambda>m p. selectedIn ops (fst p) [snd p] m) ?m' ps)
          = allSelected ops ?m' + mset (map snd ps)"
    by (rule Cons.IH [OF keys dist unsel])
  then show ?case using step p by simp
qed

lemma deselectAllWidgets_selected:
  "setSelection ops \<Longrightarrow> allSelected ops (deselectAllWidgets ops m) = {#}"
  by (simp add: allSelected_def deselectAllWidgets_def setSelection_def comp_def split_def)

lemma deselectAllWidgets_lookup:
  "map_of (widgets (deselectAllWidgets ops m)) k = map_option (deselectAllW ops) (map_of (widgets m) k)"
  by (simp add: deselectAllWidgets_def map_of_map)

lemma deselectAllWidgets_keys:
  "fst ` set (widgets (deselectAllWidgets ops m)) = fst ` set (widgets m)"
  by (force simp add: deselectAllWidgets_def)

text \<open>
  C3 (as the code has it). Saving a query object to the hash and loading the hash
  throws nothing, restores the start offset and selects, over all widgets, exactly the
  values of the object's filters and terms, provided that: the start offset is \<open>NaN\<close>
  or an integer of magnitude at most \<open>2^53\<close>, which is written in decimal digits; the
  fragment codecs round-trip on these items and write no \<open>&\<close>; the browser keeps the
  fragment as written; every filter's \<open>widgetId\<close> is registered, and \<open>text\<close> is
  registered if there is a term; no value goes twice to the same widget; and a widget's
  selection is empty after \<open>deselectAll\<close> and gains the value when a value it does not
  hold is selected.
\<close>

theorem hash_round_trip:
  assumes exact: "exactNumber (qo_start qo)"
    and safe: "hashSafe cd (fqArrays h (qo_fq qo)) (qArrays h (qo_q qo))"
    and proc: "\<forall>s. locationProcessing cd s = s"
    and reg: "\<forall>p\<in>set (routes (fqArrays h (qo_fq qo)) (qArrays h (qo_q qo))).
                fst p \<in> fst ` set (widgets m)"
    and dist: "distinct (routes (fqArrays h (qo_fq qo)) (qArrays h (qo_q qo)))"
    and sel: "setSelection ops"
  shows "roundTrip cd ops qo m h"
proof -
  let ?fqs = "fqArrays h (qo_fq qo)" and ?qs = "qArrays h (qo_q qo)"
  let ?segs = "map (\<lambda>x. ''fq='' @ toHashFq cd x) ?fqs @ map (\<lambda>x. ''q='' @ toHashQ cd x) ?qs"
  let ?last = "''start='' @ numToString cd (qo_start qo)"
  let ?loc = "CHR ''#'' # concat (map (\<lambda>s. s @ ''&'') ?segs) @ ?last"
  let ?m1 = "m\<lparr>m_hash := ?loc\<rparr>"
  let ?m0 = "deselectAllWidgets ops ?m1"
  let ?routed = "foldl (\<lambda>m p. selectedIn ops (fst p) [snd p] m) ?m0 (routes ?fqs ?qs)"
  have loc: "snd (saveQueryToHash cd qo m h) = ?loc"
    using proc by (simp only: saveQueryToHash_hash)
  have m1: "fst (saveQueryToHash cd qo m h) = ?m1"
    by (simp only: saveQueryToHash_mgr loc)
  have segs: "\<forall>s\<in>set ?segs. CHR ''&'' \<notin> set s"
    using safe by (auto simp add: hashSafe_def)
  have last: "CHR ''&'' \<notin> set ?last"
    using amp_notin_numToString [OF exact, of cd] by simp
  have split: "split CHR ''&'' (drop 1 ?loc) = ?segs @ [?last]"
    using split_segments [OF segs last] by simp
  have keys: "\<forall>p\<in>set (routes ?fqs ?qs). fst p \<in> fst ` set (widgets ?m0)"
    using reg by (simp add: deselectAllWidgets_keys)
  have routed: "loadSegments cd ops ?segs ?m0 = Inr ?routed"
    by (rule load_segments [OF safe keys])
  have "loadQueryFromHash cd ops ?m1 ?loc = loadSegments cd ops (?segs @ [?last]) ?m0"
    by (simp only: loadQueryFromHash_segments split) simp
  also have "\<dots> = loadSegments cd ops [?last] ?routed"
    by (simp only: loadSegments_append [of cd ops ?segs "[?last]"] routed sum.case)
  also have "\<dots> = Inr (?routed\<lparr>m_start := qo_start qo\<rparr>)"
    by (simp only: loadSegments.simps loadSegment_start parseInt_numToString [OF exact] sum.case)
  finally have decoded:
    "loadQueryFromHash cd ops ?m1 ?loc = Inr (?routed\<lparr>m_start := qo_start qo\<rparr>)" .
  have unsel: "\<forall>p\<in>set (routes ?fqs ?qs). \<forall>w. map_of (widgets ?m0) (fst p) = Some w
                 \<longrightarrow> snd p \<notin> set (selectedItemsW ops w)"
    using sel by (auto simp add: deselectAllWidgets_lookup setSelection_def)
  have "allSelected ops ?routed = allSelected ops ?m0 + mset (map snd (routes ?fqs ?qs))"
    by (rule route_all [OF sel keys dist unsel])
  then have all: "allSelected ops (?routed\<lparr>m_start := qo_start qo\<rparr>)
                    = mset (map fq_value ?fqs) + mset (map q_value ?qs)"
    using deselectAllWidgets_selected [OF sel, of ?m1]
    by (simp add: allSelected_def routes_def comp_def)
  show ?thesis
    unfolding roundTrip_def split_def Let_def m1 loc decoded using all by simp
qed

text \<open>The terms \<open>cats\<close> and \<open>dogs\<close> on \<open>text\<close> at offset 20.\<close>

theorem hash_round_trip_witness:
  "(let (queryObj, h) = buildQuery termOps (Num 20) (scenarioManager ''text'' [''cats'', ''dogs'']) scenarioStore
    in exactNumber (qo_start queryObj)
       \<and> hashSafe scenarioCodecs (fqArrays h (qo_fq queryObj)) (qArrays h (qo_q queryObj))
       \<and> (\<forall>s. locationProcessing scenarioCodecs s = s)
       \<and> (\<forall>p\<in>set (routes (fqArrays h (qo_fq queryObj)) (qArrays h (qo_q queryObj))).
             fst p \<in> fst ` set (widgets (scenarioManager ''text'' [''cats'', ''dogs''])))
       \<and> distinct (routes (fqArrays h (qo_fq queryObj)) (qArrays h (qo_q queryObj)))
       \<and> setSelection termOps
       \<and> roundTrip scenarioCodecs termOps queryObj (scenarioManager ''text'' [''cats'', ''dogs'']) h)"
proof -
  let ?m = "scenarioManager ''text'' [''cats'', ''dogs'']"
  let ?qo = "fst (buildQuery termOps (Num 20) ?m scenarioStore)"
  let ?h = "snd (buildQuery termOps (Num 20) ?m scenarioStore)"
  have exact: "exactNumber (qo_start ?qo)"
    by code_simp
  have safe: "hashSafe scenarioCodecs (fqArrays ?h (qo_fq ?qo)) (qArrays ?h (qo_q ?qo))"
    by code_simp
  have proc: "\<forall>s. locationProcessing scenarioCodecs s = s"
    by (simp add: scenarioCodecs_def)
  have reg: "\<forall>p\<in>set (routes (fqArrays ?h (qo_fq ?qo)) (qArrays ?h (qo_q ?qo))).
               fst p \<in> fst ` set (widgets ?m)"
    by code_simp
  have dist: "distinct (routes (fqArrays ?h (qo_fq ?qo)) (qArrays ?h (qo_q ?qo)))"
    by code_simp
  have sel: "setSelection termOps"
    by (simp add: setSelection_def termOps_def addItem_def)
  show ?thesis
    unfolding split_def Let_def
    using exact safe proc reg dist sel hash_round_trip [OF exact safe proc reg dist sel]
    by blast
qed

text \<open>
  C3 as it is written fails: a term contributed by a widget registered as \<open>search\<close>
  is written to the fragment, and loading the fragment selects it nowhere, because
  only the widget registered as \<open>text\<close> receives terms.
\<close>

theorem round_trip_drops_terms:
  "(let (queryObj, h) = buildQuery termOps (Num 0) (scenarioManager ''search'' [''cats'']) scenarioStore
    in \<not> roundTrip scenarioCodecs termOps queryObj (scenarioManager ''search'' [''cats'']) h)"
  by code_simp

end
